theory Spec2Isabelle
  imports Complex_Main
begin

section \<open>Python values and exceptions\<close>

text \<open>
  The module \<^verbatim>\<open>src/utils/plotter.py\<close> builds a theme (nested dictionaries of
  strings, numbers and booleans), colours the traces of a figure from a fixed palette and
  writes a figure to a PNG file.  Exceptions are values: every operation that can raise
  returns \<open>py_error + 'a\<close>, with \<open>Inl\<close> the exception.
\<close>

datatype py_error =
    KeyError
  | TypeError
  | IndexError
  | ValueError
  | SystemError
  | ZeroDivisionError
  | FileNotFoundError
  | FileExistsError
  | NotADirectoryError
  | IsADirectoryError
  | RenderingError

definition py_bind :: "py_error + 'a \<Rightarrow> ('a \<Rightarrow> py_error + 'b) \<Rightarrow> py_error + 'b" where
  "py_bind m f = (case m of Inl e \<Rightarrow> Inl e | Inr v \<Rightarrow> f v)"

text \<open>
  The values the theme dictionaries hold, read as trees.  The floats of the source
  (\<^verbatim>\<open>0.5\<close>, \<^verbatim>\<open>-0.25\<close>) are literals that are never computed with; they are kept
  as the rationals they denote.
\<close>

datatype pyval =
    PyStr string
  | PyInt int
  | PyFloat rat
  | PyBool bool
  | PyDict "(string \<times> pyval) list"

text \<open>\<^verbatim>\<open>d[k]\<close> on the items of a dictionary: the first binding of the key, or KeyError.\<close>

fun dict_get :: "('k \<times> 'v) list \<Rightarrow> 'k \<Rightarrow> py_error + 'v" where
  "dict_get [] k = Inl KeyError"
| "dict_get ((k', v) # kvs) k = (if k' = k then Inr v else dict_get kvs k)"

text \<open>\<^verbatim>\<open>v[k]\<close> on a value: only a dictionary can be subscripted by a string key.\<close>

fun py_getitem :: "pyval \<Rightarrow> string \<Rightarrow> py_error + pyval" where
  "py_getitem (PyDict kvs) k = dict_get kvs k"
| "py_getitem _ k = Inl TypeError"

text \<open>\<^verbatim>\<open>**v\<close> in a call: the value must be a mapping; its items become keyword arguments.\<close>

fun py_kwargs :: "pyval \<Rightarrow> py_error + (string \<times> pyval) list" where
  "py_kwargs (PyDict kvs) = Inr kvs"
| "py_kwargs _ = Inl TypeError"

text \<open>\<^verbatim>\<open>i % n\<close> on non-negative integers and \<^verbatim>\<open>xs[j]\<close> with \<open>j \<ge> 0\<close>.\<close>

definition py_mod :: "nat \<Rightarrow> nat \<Rightarrow> py_error + nat" where
  "py_mod i n = (if n = 0 then Inl ZeroDivisionError else Inr (i mod n))"

definition py_index :: "'a list \<Rightarrow> nat \<Rightarrow> py_error + 'a" where
  "py_index xs j = (if j < length xs then Inr (xs ! j) else Inl IndexError)"

section \<open>Objects and the state of the process\<close>

text \<open>
  A dictionary is an object: a dictionary display \<^verbatim>\<open>{...}\<close> makes a new one each time
  it is evaluated, and what the program holds is a reference to it.  The heap is the list
  of the dictionaries made so far, a reference is a position in it.  The state of the
  process is the heap and, in \<open>proc_rest\<close>, everything else a statement could act on
  (module variables, files, output).
\<close>

datatype hval =
    HStr string
  | HInt int
  | HFloat rat
  | HBool bool
  | HRef nat

type_synonym hobj = "(string \<times> hval) list"

record 'w process =
  proc_heap :: "hobj list"
  proc_rest :: 'w

text \<open>A statement or expression: it runs in a state, raises or yields a value, and leaves a state.\<close>

type_synonym ('w, 'a) prog = "'w process \<Rightarrow> (py_error + 'a) \<times> 'w process"

definition then_do :: "('w, 'a) prog \<Rightarrow> ('a \<Rightarrow> ('w, 'b) prog) \<Rightarrow> ('w, 'b) prog" where
  "then_do m f = (\<lambda>s. case m s of (Inl e, s') \<Rightarrow> (Inl e, s') | (Inr v, s') \<Rightarrow> f v s')"

text \<open>A dictionary display whose keys and values have been evaluated to \<open>items\<close>.\<close>

definition new_dict :: "hobj \<Rightarrow> ('w, hval) prog" where
  "new_dict items =
    (\<lambda>s. (Inr (HRef (length (proc_heap s))), s\<lparr>proc_heap := proc_heap s @ [items]\<rparr>))"

text \<open>
  \<^verbatim>\<open>v[k]\<close>: the dictionary is read, nothing is written.  A reference past the end of
  the heap does not arise (references come from \<open>new_dict\<close>); it is an error of its own.
\<close>

definition subscript :: "hval \<Rightarrow> string \<Rightarrow> ('w, hval) prog" where
  "subscript v k =
    (\<lambda>s. (case v of
             HRef a \<Rightarrow>
               if a < length (proc_heap s) then dict_get (proc_heap s ! a) k
               else Inl SystemError
           | _ \<Rightarrow> Inl TypeError,
           s))"

text \<open>
  The tree a value stands for in a heap: the fields of a dictionary, and of the
  dictionaries in it, down to \<open>n\<close> levels of nesting (\<open>None\<close> when the nesting is deeper
  or a reference leads nowhere).
\<close>

fun reify :: "nat \<Rightarrow> hobj list \<Rightarrow> hval \<Rightarrow> pyval option"
  and reify_items :: "nat \<Rightarrow> hobj list \<Rightarrow> hobj \<Rightarrow> (string \<times> pyval) list option" where
  "reify n h (HStr s) = Some (PyStr s)"
| "reify n h (HInt i) = Some (PyInt i)"
| "reify n h (HFloat q) = Some (PyFloat q)"
| "reify n h (HBool b) = Some (PyBool b)"
| "reify 0 h (HRef a) = None"
| "reify (Suc n) h (HRef a) =
    (if a < length h then map_option PyDict (reify_items n h (h ! a)) else None)"
| "reify_items n h [] = Some []"
| "reify_items n h ((k, v) # kvs) =
    (case reify n h v of
       None \<Rightarrow> None
     | Some d \<Rightarrow> map_option (\<lambda>ds. (k, d) # ds) (reify_items n h kvs))"

section \<open>The theme (lines 14-78)\<close>

text \<open>The items of the \<^verbatim>\<open>colors\<close> dictionary, lines 16-26.\<close>

definition colors_items :: hobj where
  "colors_items =
    [(''background'', HStr ''#ffffff''),
     (''foreground'', HStr ''#252525''),
     (''card'', HStr ''#ffffff''),
     (''primary'', HStr ''#343434''),
     (''secondary'', HStr ''#f7f7f7''),
     (''muted'', HStr ''#f7f7f7''),
     (''accent'', HStr ''#f7f7f7''),
     (''border'', HStr ''#d0d0d0''),
     (''destructive'', HStr ''#e2483d'')]"

text \<open>
  The dictionary display of one axis, lines 44-55 and again lines 56-67 (\<^verbatim>\<open>xaxis\<close> and
  \<^verbatim>\<open>yaxis\<close> are written out twice, with the same entries): its values are evaluated
  in the order they are written, each \<^verbatim>\<open>colors[...]\<close> a lookup, each inner display a new
  dictionary, and the axis dictionary is made last.
\<close>

definition axis_display :: "hval \<Rightarrow> ('w, hval) prog" where
  "axis_display colors =
    then_do (subscript colors ''border'') (\<lambda>gridcolor.
    then_do (subscript colors ''border'') (\<lambda>linecolor.
    then_do (subscript colors ''border'') (\<lambda>tickcolor.
    then_do (subscript colors ''foreground'') (\<lambda>title_color.
    then_do (new_dict [(''color'', title_color)]) (\<lambda>title_font.
    then_do (subscript colors ''foreground'') (\<lambda>tick_color.
    then_do (new_dict [(''color'', tick_color)]) (\<lambda>tickfont.
    then_do (subscript colors ''border'') (\<lambda>zerolinecolor.
      new_dict
        [(''gridcolor'', gridcolor),
         (''gridwidth'', HFloat (1 / 2)),
         (''linecolor'', linecolor),
         (''linewidth'', HFloat (1 / 2)),
         (''tickcolor'', tickcolor),
         (''title_font'', title_font),
         (''tickfont'', tickfont),
         (''zeroline'', HBool True),
         (''zerolinecolor'', zerolinecolor),
         (''zerolinewidth'', HFloat (1 / 2))]))))))))"

text \<open>
  \<^verbatim>\<open>get_plotly_theme()\<close>: it has no parameter.  The body makes the \<^verbatim>\<open>colors\<close>
  dictionary, then evaluates the returned display from the inside out, in the order it
  is written; the value returned is the reference to the outermost dictionary.
\<close>

definition get_plotly_theme :: "('w, hval) prog" where
  "get_plotly_theme =
    then_do (new_dict colors_items) (\<lambda>colors.
    then_do (subscript colors ''background'') (\<lambda>paper_bgcolor.
    then_do (subscript colors ''card'') (\<lambda>plot_bgcolor.
    then_do (subscript colors ''foreground'') (\<lambda>font_color.
    then_do (new_dict
              [(''family'', HStr ''Source Code Pro, monospace''),
               (''color'', font_color),
               (''size'', HInt 10)]) (\<lambda>font.
    then_do (subscript colors ''foreground'') (\<lambda>title_font_color.
    then_do (new_dict
              [(''family'', HStr ''Source Code Pro, monospace''),
               (''color'', title_font_color),
               (''size'', HInt 24)]) (\<lambda>title_font.
    then_do (new_dict [(''font'', title_font)]) (\<lambda>title.
    then_do (axis_display colors) (\<lambda>xaxis.
    then_do (axis_display colors) (\<lambda>yaxis.
    then_do (subscript colors ''card'') (\<lambda>legend_bgcolor.
    then_do (subscript colors ''border'') (\<lambda>legend_bordercolor.
    then_do (subscript colors ''foreground'') (\<lambda>legend_font_color.
    then_do (new_dict [(''color'', legend_font_color)]) (\<lambda>legend_font.
    then_do (new_dict
              [(''bgcolor'', legend_bgcolor),
               (''bordercolor'', legend_bordercolor),
               (''font'', legend_font)]) (\<lambda>legend.
    then_do (new_dict
              [(''paper_bgcolor'', paper_bgcolor),
               (''plot_bgcolor'', plot_bgcolor),
               (''font'', font),
               (''title'', title),
               (''xaxis'', xaxis),
               (''yaxis'', yaxis),
               (''legend'', legend)]) (\<lambda>layout.
      new_dict [(''layout'', layout)]))))))))))))))))"

text \<open>
  \<^verbatim>\<open>PLOTLY_THEME = get_plotly_theme()\<close>, line 78, as the styler reads it: the tree of
  the dictionary the call returned when the module was loaded, into a heap with nothing
  in it yet.
\<close>

definition PLOTLY_THEME :: "py_error + pyval" where
  "PLOTLY_THEME =
    (case get_plotly_theme \<lparr>proc_heap = [], proc_rest = ()\<rparr> of
       (Inl e, s) \<Rightarrow> Inl e
     | (Inr r, s) \<Rightarrow>
        (case reify 4 (proc_heap s) r of None \<Rightarrow> Inl SystemError | Some d \<Rightarrow> Inr d))"

section \<open>The accent palette (lines 81-101)\<close>

definition CHART_COLORS :: "string list" where
  "CHART_COLORS =
    [''#d97706'', ''#0891b2'', ''#7c3aed'', ''#65a30d'', ''#ca8a04'',
     ''#E53E3E'', ''#38B2AC'', ''#3182CE'', ''#68D391'', ''#F6AD55'',
     ''#B794F6'', ''#4FD1C7'', ''#F6E05E'', ''#9F7AEA'', ''#63B3ED'',
     ''#F687B3'', ''#48BB78'']"

text \<open>The expression \<^verbatim>\<open>CHART_COLORS[i % len(CHART_COLORS)]\<close> of lines 121 and 123.\<close>

definition palette_color :: "nat \<Rightarrow> py_error + string" where
  "palette_color i =
    py_bind (py_mod i (length CHART_COLORS)) (\<lambda>j. py_index CHART_COLORS j)"

section \<open>Figures and traces\<close>

text \<open>
  What \<^verbatim>\<open>update_layout\<close> meets in an attribute \<^verbatim>\<open>trace.line\<close> or
  \<^verbatim>\<open>trace.marker\<close>: \<^verbatim>\<open>hasattr\<close> is false (\<open>NoAttr\<close>); the attribute is there but
  its value is falsy, such as \<^verbatim>\<open>None\<close> (\<open>FalsyAttr\<close>); it holds an object that has no
  colour property, such as the marker of a pie trace or the line of a candlestick trace,
  and assigning to its \<^verbatim>\<open>color\<close> raises ValueError (\<open>NoColor\<close>); or it holds an
  object with a colour property that can be set (\<open>Obj\<close>).
\<close>

datatype 'a attr = NoAttr | FalsyAttr | NoColor | Obj 'a

record 'p slot =
  slot_color :: "string option"
  slot_props :: 'p

record ('d, 'p) trace =
  trace_name :: string
  trace_x :: 'd
  trace_y :: 'd
  trace_line :: "'p slot attr"
  trace_marker :: "'p slot attr"

record ('l, 'd, 'p) figure =
  fig_layout :: 'l
  fig_data :: "('d, 'p) trace list"

text \<open>
  The body of the loop, lines 120-123, for the trace at index \<open>i\<close>.  The right-hand side
  of the assignment is evaluated first; the assignment raises when the object has no
  colour property, and the trace is then as it was.
\<close>

definition color_trace :: "nat \<Rightarrow> ('d, 'p) trace \<Rightarrow> py_error + ('d, 'p) trace" where
  "color_trace i t =
    (case trace_line t of
       Obj l \<Rightarrow>
         py_bind (palette_color i) (\<lambda>c. Inr (t\<lparr>trace_line := Obj (l\<lparr>slot_color := Some c\<rparr>)\<rparr>))
     | NoColor \<Rightarrow> py_bind (palette_color i) (\<lambda>c. Inl ValueError)
     | _ \<Rightarrow>
        (case trace_marker t of
           Obj m \<Rightarrow>
             py_bind (palette_color i) (\<lambda>c. Inr (t\<lparr>trace_marker := Obj (m\<lparr>slot_color := Some c\<rparr>)\<rparr>))
         | NoColor \<Rightarrow> py_bind (palette_color i) (\<lambda>c. Inl ValueError)
         | _ \<Rightarrow> Inr t))"

text \<open>
  \<^verbatim>\<open>for i, trace in enumerate(fig.data)\<close>, counting from \<open>i\<close>: the exception that
  ended the loop, if any, and the traces as the loop leaves them (those before the one
  that raised are coloured, that one and the later ones are untouched).
\<close>

fun color_traces :: "nat \<Rightarrow> ('d, 'p) trace list \<Rightarrow> py_error option \<times> ('d, 'p) trace list" where
  "color_traces i [] = (None, [])"
| "color_traces i (t # ts) =
    (case color_trace i t of
       Inl e \<Rightarrow> (Some e, t # ts)
     | Inr t' \<Rightarrow> (case color_traces (Suc i) ts of (r, ts') \<Rightarrow> (r, t' # ts')))"

text \<open>
  \<^verbatim>\<open>update_layout(fig, title)\<close>, lines 107-130.  The figure is changed in place: the
  result is the exception raised, if any, and the figure as the call leaves it, which is
  also the value returned when nothing is raised.  The charting library's
  \<^verbatim>\<open>Figure.update_layout(**kwargs)\<close> is the parameter \<open>U\<close>: it maps the keyword
  arguments and the figure's layout to the new layout, and touches nothing else of the
  figure.
\<close>

definition legend_kwargs :: "(string \<times> pyval) list" where
  "legend_kwargs =
    [(''legend'', PyDict
       [(''orientation'', PyStr ''h''),
        (''yanchor'', PyStr ''bottom''),
        (''y'', PyFloat (- (1 / 4))),
        (''xanchor'', PyStr ''center''),
        (''x'', PyFloat (1 / 2))])]"

definition update_layout ::
  "((string \<times> pyval) list \<Rightarrow> 'l \<Rightarrow> 'l) \<Rightarrow> ('l, 'd, 'p) figure \<Rightarrow> string
     \<Rightarrow> py_error option \<times> ('l, 'd, 'p) figure" where
  "update_layout U fig title =
    (case py_bind PLOTLY_THEME (\<lambda>theme. py_bind (py_getitem theme ''layout'') py_kwargs) of
       Inl e \<Rightarrow> (Some e, fig)
     | Inr kw \<Rightarrow>
        (let fig1 = fig\<lparr>fig_layout := U kw (fig_layout fig)\<rparr>;
             fig2 = fig1\<lparr>fig_layout := U [(''title'', PyStr title)] (fig_layout fig1)\<rparr>
         in case color_traces 0 (fig_data fig2) of
              (Some e, ts) \<Rightarrow> (Some e, fig2\<lparr>fig_data := ts\<rparr>)
            | (None, ts) \<Rightarrow>
               (let fig3 = fig2\<lparr>fig_data := ts\<rparr>;
                    fig4 = fig3\<lparr>fig_layout := U legend_kwargs (fig_layout fig3)\<rparr>
                in (None, fig4))))"

section \<open>Paths (pathlib, POSIX flavour)\<close>

text \<open>
  \<^verbatim>\<open>Path(filename)\<close>, \<^verbatim>\<open>.parent\<close> and \<^verbatim>\<open>str(path)\<close> as the standard library
  computes them on a POSIX system: a path is a root (empty, \<^verbatim>\<open>/\<close> or \<^verbatim>\<open>//\<close>) and
  the list of its components; empty components and \<^verbatim>\<open>.\<close> are dropped when the
  string is parsed, \<^verbatim>\<open>..\<close> is kept.
\<close>

record path =
  path_root :: string
  path_tail :: "string list"

text \<open>\<^verbatim>\<open>s.split(c)\<close> and \<^verbatim>\<open>c.join(parts)\<close>.\<close>

fun split_sep :: "char \<Rightarrow> string \<Rightarrow> string list" where
  "split_sep c [] = [[]]"
| "split_sep c (x # xs) =
    (if x = c then [] # split_sep c xs
     else (x # hd (split_sep c xs)) # tl (split_sep c xs))"

fun join_sep :: "char \<Rightarrow> string list \<Rightarrow> string" where
  "join_sep c [] = []"
| "join_sep c [w] = w"
| "join_sep c (w # ws) = w @ c # join_sep c ws"

text \<open>\<^verbatim>\<open>posixpath.splitroot\<close>: exactly two leading slashes are a root of their own.\<close>

definition splitroot :: "string \<Rightarrow> string \<times> string" where
  "splitroot p =
    (if take 1 p \<noteq> ''/'' then ([], p)
     else if take 1 (drop 1 p) \<noteq> ''/'' \<or> take 1 (drop 2 p) = ''/'' then (''/'', drop 1 p)
     else (''//'', drop 2 p))"

definition Path :: "string \<Rightarrow> path" where
  "Path s =
    (if s = [] then \<lparr>path_root = [], path_tail = []\<rparr>
     else \<lparr>path_root = fst (splitroot s),
           path_tail = filter (\<lambda>x. x \<noteq> [] \<and> x \<noteq> ''.'') (split_sep CHR ''/'' (snd (splitroot s)))\<rparr>)"

definition path_str :: "path \<Rightarrow> string" where
  "path_str p =
    (let s = path_root p @ join_sep CHR ''/'' (path_tail p) in if s = [] then ''.'' else s)"

definition parent :: "path \<Rightarrow> path" where
  "parent p = (if path_tail p = [] then p else p\<lparr>path_tail := butlast (path_tail p)\<rparr>)"

text \<open>\<^verbatim>\<open>s.endswith(suf)\<close>.\<close>

definition endswith :: "string \<Rightarrow> string \<Rightarrow> bool" where
  "endswith s suf = (length suf \<le> length s \<and> drop (length s - length suf) s = suf)"

section \<open>The file system\<close>

text \<open>
  Directories and regular files, found by path; a path with no component (the current
  directory, or the root) is always a directory.  There are no links and no permissions,
  and a component is looked up by its name: the model is of paths that are spelled
  without a \<^verbatim>\<open>..\<close> component and without the root \<^verbatim>\<open>//\<close>, which the operating
  system would resolve to another spelling (see \<open>plain_path\<close> below).  An operation
  of the operating system first walks the directories above its target: a missing one is
  FileNotFoundError, a regular file in the way is NotADirectoryError.
\<close>

datatype 'i node = Dir | File 'i

type_synonym 'i filesystem = "path \<Rightarrow> 'i node option"

fun traverse :: "'i filesystem \<Rightarrow> string \<Rightarrow> string list \<Rightarrow> string list \<Rightarrow> py_error option" where
  "traverse fs r pre [] = None"
| "traverse fs r pre (d # ds) =
    (case fs \<lparr>path_root = r, path_tail = pre @ [d]\<rparr> of
       None \<Rightarrow> Some FileNotFoundError
     | Some (File _) \<Rightarrow> Some NotADirectoryError
     | Some Dir \<Rightarrow> traverse fs r (pre @ [d]) ds)"

definition os_mkdir :: "'i filesystem \<Rightarrow> path \<Rightarrow> py_error + 'i filesystem" where
  "os_mkdir fs p =
    (if path_tail p = [] then Inl FileExistsError
     else (case traverse fs (path_root p) [] (butlast (path_tail p)) of
             Some e \<Rightarrow> Inl e
           | None \<Rightarrow>
              (case fs p of
                 Some _ \<Rightarrow> Inl FileExistsError
               | None \<Rightarrow> Inr (fs(p \<mapsto> Dir)))))"

definition is_dir :: "'i filesystem \<Rightarrow> path \<Rightarrow> bool" where
  "is_dir fs p =
    (path_tail p = [] \<or>
     (traverse fs (path_root p) [] (butlast (path_tail p)) = None \<and> fs p = Some Dir))"

text \<open>
  \<^verbatim>\<open>Path.mkdir(parents, exist_ok)\<close>, as pathlib writes it: try \<^verbatim>\<open>os.mkdir\<close>; on
  FileNotFoundError make the parent with \<^verbatim>\<open>parents=True, exist_ok=True\<close> and try once
  more without \<^verbatim>\<open>parents\<close>; on any other OSError give up unless \<^verbatim>\<open>exist_ok\<close> holds
  and the path is a directory.  The file system is returned also when the call raises.
\<close>

function path_mkdir ::
  "'i filesystem \<Rightarrow> path \<Rightarrow> bool \<Rightarrow> bool \<Rightarrow> (py_error + unit) \<times> 'i filesystem" where
  "path_mkdir fs p parents exist_ok =
    (case os_mkdir fs p of
       Inr fs' \<Rightarrow> (Inr (), fs')
     | Inl e \<Rightarrow>
        if e = FileNotFoundError then
          (if \<not> parents \<or> parent p = p then (Inl e, fs)
           else (case path_mkdir fs (parent p) True True of
                   (Inl e', fs1) \<Rightarrow> (Inl e', fs1)
                 | (Inr _, fs1) \<Rightarrow> path_mkdir fs1 p False exist_ok))
        else if \<not> exist_ok \<or> \<not> is_dir fs p then (Inl e, fs)
        else (Inr (), fs))"
  by pat_completeness auto
termination
  by (relation "measure (\<lambda>(fs, p, parents, exist_ok).
        2 * length (path_tail p) + (if parents then 1 else 0))")
     (auto simp: parent_def split: if_splits)

text \<open>\<^verbatim>\<open>Path.write_bytes\<close>: create or replace a regular file.\<close>

definition write_bytes :: "'i filesystem \<Rightarrow> path \<Rightarrow> 'i \<Rightarrow> py_error + 'i filesystem" where
  "write_bytes fs p img =
    (if path_tail p = [] then Inl IsADirectoryError
     else (case traverse fs (path_root p) [] (butlast (path_tail p)) of
             Some e \<Rightarrow> Inl e
           | None \<Rightarrow>
              (case fs p of
                 Some Dir \<Rightarrow> Inl IsADirectoryError
               | _ \<Rightarrow> Inr (fs(p \<mapsto> File img)))))"

section \<open>The rendering engine\<close>

text \<open>
  What \<^verbatim>\<open>fig.write_image\<close> is asked for.  The scale is a float of the source that is
  passed on and never computed with; it is kept as a rational.
\<close>

record 'f request =
  req_figure :: 'f
  req_file :: string
  req_width :: int
  req_height :: int
  req_scale :: rat
  req_format :: string
  req_engine :: string

record 'f image =
  img_figure :: 'f
  px_width :: rat
  px_height :: rat

text \<open>
  Modelled from the spec: the rendering engine is not part of the sources.  Its contract
  (sections 4.3 and 6) is that it converts the figure or fails with a rendering error, and
  that the image has pixel dimensions width \<times> scale by height \<times> scale.  Whether it
  accepts a request is the parameter \<open>E\<close>.
\<close>

definition to_image :: "('f request \<Rightarrow> bool) \<Rightarrow> 'f request \<Rightarrow> py_error + 'f image" where
  "to_image E req =
    (if E req
     then Inr \<lparr>img_figure = req_figure req,
               px_width = of_int (req_width req) * req_scale req,
               px_height = of_int (req_height req) * req_scale req\<rparr>
     else Inl RenderingError)"

text \<open>
  The world an export acts on: the file system, and the requests the engine has received,
  oldest first.
\<close>

record 'f world =
  files :: "'f image filesystem"
  requests :: "'f request list"

text \<open>
  \<^verbatim>\<open>fig.write_image(file, width, height, scale, format, engine)\<close>: the image is
  rendered first, then written to the file the string names.
\<close>

definition write_image ::
  "('f request \<Rightarrow> bool) \<Rightarrow> 'f request \<Rightarrow> 'f world \<Rightarrow> (py_error + unit) \<times> 'f world" where
  "write_image E req w =
    (let w1 = w\<lparr>requests := requests w @ [req]\<rparr> in
     case to_image E req of
       Inl e \<Rightarrow> (Inl e, w1)
     | Inr img \<Rightarrow>
        (case write_bytes (files w1) (Path (req_file req)) img of
           Inl e \<Rightarrow> (Inl e, w1)
         | Inr fs' \<Rightarrow> (Inr (), w1\<lparr>files := fs'\<rparr>)))"

section \<open>Export (lines 133-188)\<close>

text \<open>Lines 153-155: \<^verbatim>\<open>if not filename.endswith(".png"): filename += ".png"\<close>.\<close>

definition png_filename :: "string \<Rightarrow> string" where
  "png_filename filename = (if \<not> endswith filename ''.png'' then filename @ ''.png'' else filename)"

text \<open>
  \<^verbatim>\<open>export_png_high_quality(fig, filename, width=1200, height=800, scale=2.0)\<close>.  An
  argument the caller leaves out is \<open>None\<close> and takes its default.
\<close>

definition export_png_high_quality ::
  "('f request \<Rightarrow> bool) \<Rightarrow> 'f \<Rightarrow> string \<Rightarrow> int option \<Rightarrow> int option \<Rightarrow> rat option
     \<Rightarrow> 'f world \<Rightarrow> (py_error + string) \<times> 'f world" where
  "export_png_high_quality E fig filename width_arg height_arg scale_arg w =
    (let width = (case width_arg of None \<Rightarrow> 1200 | Some v \<Rightarrow> v);
         height = (case height_arg of None \<Rightarrow> 800 | Some v \<Rightarrow> v);
         scale = (case scale_arg of None \<Rightarrow> 2 | Some v \<Rightarrow> v);
         file_path = Path (png_filename filename)
     in case path_mkdir (files w) (parent file_path) True True of
          (Inl e, fs1) \<Rightarrow> (Inl e, w\<lparr>files := fs1\<rparr>)
        | (Inr _, fs1) \<Rightarrow>
           (case write_image E
                   \<lparr>req_figure = fig, req_file = path_str file_path, req_width = width,
                    req_height = height, req_scale = scale, req_format = ''png'',
                    req_engine = ''kaleido''\<rparr>
                   (w\<lparr>files := fs1\<rparr>) of
              (Inl e, w2) \<Rightarrow> (Inl e, w2)
            | (Inr _, w2) \<Rightarrow> (Inr (path_str file_path), w2)))"

text \<open>
  \<^verbatim>\<open>export_png(fig, filename, width=1200, height=800, scale=1.0)\<close>, line 188: all five
  arguments are passed on.
\<close>

definition export_png ::
  "('f request \<Rightarrow> bool) \<Rightarrow> 'f \<Rightarrow> string \<Rightarrow> int option \<Rightarrow> int option \<Rightarrow> rat option
     \<Rightarrow> 'f world \<Rightarrow> (py_error + string) \<times> 'f world" where
  "export_png E fig filename width_arg height_arg scale_arg w =
    (let width = (case width_arg of None \<Rightarrow> 1200 | Some v \<Rightarrow> v);
         height = (case height_arg of None \<Rightarrow> 800 | Some v \<Rightarrow> v);
         scale = (case scale_arg of None \<Rightarrow> 1 | Some v \<Rightarrow> v)
     in export_png_high_quality E fig filename (Some width) (Some height) (Some scale) w)"

section \<open>Directories an export leaves behind\<close>

text \<open>
  The file system with a directory at \<open>p\<close> and at every path above it (a path with no
  component is a directory already), and everything else as it was: what creating \<open>p\<close>
  ``and all missing ancestors'' amounts to.
\<close>

definition with_dirs :: "'i filesystem \<Rightarrow> path \<Rightarrow> 'i filesystem" where
  "with_dirs fs p =
    (\<lambda>q. if path_root q = path_root p \<and> path_tail q \<noteq> [] \<and>
             take (length (path_tail q)) (path_tail p) = path_tail q
          then Some Dir else fs q)"

text \<open>A regular file stands where \<open>p\<close> or a directory above it would have to be.\<close>

definition blocked :: "'i filesystem \<Rightarrow> path \<Rightarrow> bool" where
  "blocked fs p =
    (\<exists>k\<in>{1..length (path_tail p)}.
        case fs \<lparr>path_root = path_root p, path_tail = take k (path_tail p)\<rparr> of
          Some (File _) \<Rightarrow> True
        | _ \<Rightarrow> False)"

text \<open>
  The path is spelled as the operating system would resolve it: no component is
  \<^verbatim>\<open>..\<close>, and the root is not \<^verbatim>\<open>//\<close>.
\<close>

definition plain_path :: "path \<Rightarrow> bool" where
  "plain_path p = (''..'' \<notin> set (path_tail p) \<and> path_root p \<noteq> ''//'')"

section \<open>Traces whose colour can be set\<close>

text \<open>
  The object \<^verbatim>\<open>update_layout\<close> assigns the colour to, if the trace has one (its line
  object, or without a line object its marker object), has a colour property.
\<close>

definition stylable :: "('d, 'p) trace \<Rightarrow> bool" where
  "stylable t =
    (case trace_line t of
       Obj l \<Rightarrow> True
     | NoColor \<Rightarrow> False
     | _ \<Rightarrow> (case trace_marker t of NoColor \<Rightarrow> False | _ \<Rightarrow> True))"

section \<open>Sample inputs\<close>

text \<open>
  \<^verbatim>\<open>go.Scatter(x=..., y=..., mode="lines", name=...)\<close>, the trace \<^verbatim>\<open>plot_lines\<close>
  adds (line 203): a scatter trace has a line and a marker object, no colour set.  A bar
  trace has a marker only; a table trace has neither; the marker of a pie trace has no
  colour property (it has \<^verbatim>\<open>colors\<close>), and a pie trace has no line.
\<close>

definition Scatter :: "'d \<Rightarrow> 'd \<Rightarrow> string \<Rightarrow> ('d, unit) trace" where
  "Scatter x y name =
    \<lparr>trace_name = name, trace_x = x, trace_y = y,
     trace_line = Obj \<lparr>slot_color = None, slot_props = ()\<rparr>,
     trace_marker = Obj \<lparr>slot_color = None, slot_props = ()\<rparr>\<rparr>"




text \<open>A figure of \<open>n\<close> scatter traces over the same series, with a layout that is a list of
  the keyword arguments applied to it, newest first.\<close>

definition scatter_figure :: "nat \<Rightarrow> ((string \<times> pyval) list, int list, unit) figure" where
  "scatter_figure n =
    \<lparr>fig_layout = [], fig_data = replicate n (Scatter [0, 1, 2] [5, 7, 9] ''y'')\<rparr>"



definition push_kwargs :: "(string \<times> pyval) list \<Rightarrow> (string \<times> pyval) list \<Rightarrow> (string \<times> pyval) list" where
  "push_kwargs kw layout = kw @ layout"

text \<open>An engine that renders every request, and a world with no file and no request yet.\<close>

definition accept_all :: "'f request \<Rightarrow> bool" where
  "accept_all req = True"

definition empty_world :: "'f world" where
  "empty_world = \<lparr>files = (\<lambda>p. None), requests = []\<rparr>"

section \<open>The palette index is always defined\<close>

lemma length_CHART_COLORS: "length CHART_COLORS = 17"
  by (simp add: CHART_COLORS_def)

lemma palette_color_Inr: "palette_color i = Inr (CHART_COLORS ! (i mod 17))"
  by (simp add: palette_color_def py_bind_def py_mod_def py_index_def length_CHART_COLORS)

section \<open>Running the theme and the styler\<close>

lemmas prog_defs = then_do_def new_dict_def subscript_def

lemma theme_layout_kwargs:
  "\<exists>kw. PLOTLY_THEME = Inr (PyDict [(''layout'', PyDict kw)])"
  by (simp add: PLOTLY_THEME_def get_plotly_theme_def axis_display_def colors_items_def prog_defs
      eval_nat_numeral)

lemma get_plotly_theme_run:
  "\<exists>a s'. get_plotly_theme s = (Inr (HRef a), s') \<and> length (proc_heap s) \<le> a \<and>
     Inr (the (reify 4 (proc_heap s') (HRef a))) = PLOTLY_THEME \<and>
     reify 4 (proc_heap s') (HRef a) \<noteq> None \<and>
     take (length (proc_heap s)) (proc_heap s') = proc_heap s \<and>
     proc_rest s' = proc_rest s"
  by (simp add: PLOTLY_THEME_def get_plotly_theme_def axis_display_def colors_items_def prog_defs
      eval_nat_numeral nth_append)

lemma color_trace_stylable:
  "stylable t \<Longrightarrow> color_trace i t =
    Inr (case trace_line t of
           Obj l \<Rightarrow> t\<lparr>trace_line := Obj (l\<lparr>slot_color := Some (CHART_COLORS ! (i mod 17))\<rparr>)\<rparr>
         | _ \<Rightarrow>
            (case trace_marker t of
               Obj m \<Rightarrow> t\<lparr>trace_marker := Obj (m\<lparr>slot_color := Some (CHART_COLORS ! (i mod 17))\<rparr>)\<rparr>
             | _ \<Rightarrow> t))"
  by (simp add: color_trace_def stylable_def palette_color_Inr py_bind_def split: attr.splits)

lemma color_trace_not_stylable:
  "\<not> stylable t \<Longrightarrow> color_trace i t = Inl ValueError"
  by (simp add: color_trace_def stylable_def palette_color_Inr py_bind_def split: attr.splits)

lemma color_traces_length: "length (snd (color_traces i ts)) = length ts"
proof (induction ts arbitrary: i)
  case Nil
  then show ?case by simp
next
  case (Cons t ts)
  obtain r ts' where run: "color_traces (Suc i) ts = (r, ts')"
    by (cases "color_traces (Suc i) ts") auto
  with Cons.IH [of "Suc i"] have "length ts' = length ts" by simp
  with run show ?case by (cases "color_trace i t") simp_all
qed

lemma color_traces_each:
  "k < length ts \<Longrightarrow>
   snd (color_traces i ts) ! k = ts ! k \<or>
   color_trace (i + k) (ts ! k) = Inr (snd (color_traces i ts) ! k)"
proof (induction ts arbitrary: i k)
  case Nil
  then show ?case by simp
next
  case (Cons t ts)
  show ?case
  proof (cases "color_trace i t")
    case (Inl e)
    then show ?thesis by simp
  next
    case (Inr t')
    obtain r ts' where rest: "color_traces (Suc i) ts = (r, ts')"
      by (cases "color_traces (Suc i) ts") auto
    show ?thesis
    proof (cases k)
      case 0
      with Inr rest show ?thesis by simp
    next
      case (Suc j)
      with Cons.prems have "j < length ts" by simp
      from Cons.IH [OF this, of "Suc i"] Inr rest Suc show ?thesis by simp
    qed
  qed
qed

lemma color_traces_stylable:
  "list_all stylable ts \<Longrightarrow>
   fst (color_traces i ts) = None \<and>
   (\<forall>k<length ts. color_trace (i + k) (ts ! k) = Inr (snd (color_traces i ts) ! k))"
proof (induction ts arbitrary: i)
  case Nil
  then show ?case by simp
next
  case (Cons t ts)
  then have st: "stylable t" and rest: "list_all stylable ts" by simp_all
  obtain t' where t': "color_trace i t = Inr t'"
    using color_trace_stylable [OF st] by blast
  obtain r ts' where run: "color_traces (Suc i) ts = (r, ts')"
    by (cases "color_traces (Suc i) ts") auto
  from Cons.IH [OF rest, of "Suc i"] run have r: "r = None"
    and nth: "\<forall>k<length ts. color_trace (Suc i + k) (ts ! k) = Inr (ts' ! k)"
    by simp_all
  have "\<forall>k<length (t # ts). color_trace (i + k) ((t # ts) ! k) = Inr ((t' # ts') ! k)"
  proof (intro allI impI)
    fix k assume "k < length (t # ts)"
    then show "color_trace (i + k) ((t # ts) ! k) = Inr ((t' # ts') ! k)"
      using t' nth by (cases k) auto
  qed
  then show ?case by (simp add: t' run r)
qed

lemma update_layout_run:
  "\<exists>kw. PLOTLY_THEME = Inr (PyDict [(''layout'', PyDict kw)]) \<and>
     fst (update_layout U fig title) = fst (color_traces 0 (fig_data fig)) \<and>
     fig_data (snd (update_layout U fig title)) = snd (color_traces 0 (fig_data fig)) \<and>
     (fst (color_traces 0 (fig_data fig)) = None \<longrightarrow>
        fig_layout (snd (update_layout U fig title)) =
          U legend_kwargs (U [(''title'', PyStr title)] (U kw (fig_layout fig))))"
proof -
  obtain kw where kw: "PLOTLY_THEME = Inr (PyDict [(''layout'', PyDict kw)])"
    using theme_layout_kwargs by blast
  obtain r ts where run: "color_traces 0 (fig_data fig) = (r, ts)"
    by (cases "color_traces 0 (fig_data fig)") auto
  have "fst (update_layout U fig title) = r \<and> fig_data (snd (update_layout U fig title)) = ts \<and>
     (r = None \<longrightarrow> fig_layout (snd (update_layout U fig title)) =
          U legend_kwargs (U [(''title'', PyStr title)] (U kw (fig_layout fig))))"
    by (cases r) (simp_all add: update_layout_def kw run py_bind_def Let_def)
  with kw run show ?thesis by auto
qed

lemma update_layout_trace:
  assumes "i < length (fig_data fig)" and "list_all stylable (fig_data fig)"
  shows "\<exists>fig'. update_layout U fig title = (None, fig') \<and>
           length (fig_data fig') = length (fig_data fig) \<and>
           color_trace i (fig_data fig ! i) = Inr (fig_data fig' ! i)"
proof -
  obtain r fig' where res: "update_layout U fig title = (r, fig')"
    by (cases "update_layout U fig title") auto
  from update_layout_run [of U fig title] res
  have r: "r = fst (color_traces 0 (fig_data fig))"
    and d: "fig_data fig' = snd (color_traces 0 (fig_data fig))"
    by auto
  from color_traces_stylable [OF assms(2), of 0] assms(1) r d
  have "r = None" "color_trace i (fig_data fig ! i) = Inr (fig_data fig' ! i)"
    by auto
  moreover have "length (fig_data fig') = length (fig_data fig)"
    unfolding d by (rule color_traces_length)
  ultimately show ?thesis using res by simp
qed

section \<open>Splitting and joining strings\<close>

lemma endswith_iff: "endswith s suf \<longleftrightarrow> (\<exists>pre. s = pre @ suf)"
proof
  assume "endswith s suf"
  then have "s = take (length s - length suf) s @ suf"
    by (metis append_take_drop_id endswith_def)
  then show "\<exists>pre. s = pre @ suf" ..
next
  assume "\<exists>pre. s = pre @ suf"
  then show "endswith s suf" by (auto simp: endswith_def)
qed

lemma split_sep_not_Nil [simp]: "split_sep c s \<noteq> []"
  by (induction s) auto

lemma split_sep_no_sep: "w \<in> set (split_sep c s) \<Longrightarrow> c \<notin> set w"
proof (induction s arbitrary: w)
  case Nil
  then show ?case by simp
next
  case (Cons x xs)
  show ?case
  proof (cases "x = c")
    case True
    with Cons show ?thesis by auto
  next
    case False
    obtain v vs where vs: "split_sep c xs = v # vs"
      by (cases "split_sep c xs") auto
    with Cons False show ?thesis by auto
  qed
qed

lemma split_sep_id: "c \<notin> set s \<Longrightarrow> split_sep c s = [s]"
  by (induction s) auto

lemma join_split: "join_sep c (split_sep c s) = s"
proof (induction s)
  case Nil
  then show ?case by simp
next
  case (Cons x xs)
  obtain v vs where vs: "split_sep c xs = v # vs"
    by (cases "split_sep c xs") auto
  with Cons show ?case by (cases vs) auto
qed

lemma split_sep_append:
  "c \<notin> set suf \<Longrightarrow>
   split_sep c (a @ suf) = butlast (split_sep c a) @ [last (split_sep c a) @ suf]"
proof (induction a)
  case Nil
  then show ?case by (simp add: split_sep_id)
next
  case (Cons x xs)
  obtain v vs where vs: "split_sep c xs = v # vs"
    by (cases "split_sep c xs") auto
  with Cons show ?case by (cases vs) auto
qed

lemma split_join:
  "ws \<noteq> [] \<Longrightarrow> \<forall>w\<in>set ws. c \<notin> set w \<Longrightarrow> split_sep c (join_sep c ws) = ws"
proof (induction c ws rule: join_sep.induct)
  case (1 c)
  then show ?case by simp
next
  case (2 c w)
  then show ?case by (simp add: split_sep_id)
next
  case (3 c w v vs)
  then have IH: "split_sep c (join_sep c (v # vs)) = v # vs" by simp
  have "c \<notin> set w" using 3 by simp
  then have "split_sep c (w @ c # join_sep c (v # vs)) = w # split_sep c (join_sep c (v # vs))"
    by (induction w) auto
  with IH show ?case by simp
qed

lemma join_sep_snoc:
  "join_sep c (ws @ [y]) = (if ws = [] then y else join_sep c ws @ c # y)"
  by (induction c ws rule: join_sep.induct) auto

lemma splitroot_append: "fst (splitroot s) @ snd (splitroot s) = s"
  by (cases s; cases "tl s") (auto simp: splitroot_def)

lemma splitroot_cases:
  "splitroot s = ([], s) \<and> take 1 s \<noteq> ''/'' \<or>
   splitroot s = (''/'', drop 1 s) \<and> take 1 s = ''/'' \<or>
   splitroot s = (''//'', drop 2 s) \<and> take 2 s = ''//'' "
  apply (cases s; cases "tl s")
  apply (auto simp: splitroot_def)
  done

section \<open>Parsing and printing paths\<close>

lemma Path_tail_props:
  "w \<in> set (path_tail (Path s)) \<Longrightarrow> w \<noteq> [] \<and> w \<noteq> ''.'' \<and> CHR ''/'' \<notin> set w"
  by (auto simp: Path_def dest: split_sep_no_sep split: if_splits)

lemma Path_root_cases:
  "path_root (Path s) = [] \<or> path_root (Path s) = ''/'' \<or> path_root (Path s) = ''//''"
  using splitroot_cases [of s] by (auto simp: Path_def)

lemma filter_id_conv: "(\<forall>x\<in>set xs. P x) \<Longrightarrow> filter P xs = xs"
  by simp

lemma Path_of_parts:
  assumes r: "r = [] \<or> r = ''/'' \<or> r = ''//''"
    and ws: "\<forall>w\<in>set ws. w \<noteq> [] \<and> w \<noteq> ''.'' \<and> CHR ''/'' \<notin> set w"
  shows "Path (path_str \<lparr>path_root = r, path_tail = ws\<rparr>) = \<lparr>path_root = r, path_tail = ws\<rparr>"
proof (cases ws)
  case Nil
  with r show ?thesis
    by (auto simp: path_str_def Path_def splitroot_def)
next
  case (Cons a as)
  define j where "j = join_sep CHR ''/'' ws"
  have sp: "split_sep CHR ''/'' j = ws"
    unfolding j_def using ws Cons by (intro split_join) auto
  have "a \<noteq> []" "hd a \<noteq> CHR ''/''"
    using ws Cons by (auto simp: neq_Nil_conv)
  then obtain x xs where a: "a = x # xs" "x \<noteq> CHR ''/''"
    by (cases a) auto
  have "j = a @ (if as = [] then [] else CHR ''/'' # join_sep CHR ''/'' as)"
    unfolding j_def Cons by (cases as) auto
  then obtain rest where j: "j = x # rest"
    using a by auto
  have flt: "filter (\<lambda>x. x \<noteq> [] \<and> x \<noteq> ''.'') ws = ws"
    using ws by (intro filter_id_conv) auto
  have "splitroot (r @ j) = (r, j)"
    using r j a(2) by (auto simp: splitroot_def)
  moreover have "j \<noteq> []" using j by simp
  ultimately show ?thesis
    by (simp add: path_str_def Path_def Let_def j_def [symmetric] sp flt)
qed

lemma Path_str_roundtrip: "Path (path_str (Path s)) = Path s"
proof -
  have "Path (path_str \<lparr>path_root = path_root (Path s), path_tail = path_tail (Path s)\<rparr>)
        = \<lparr>path_root = path_root (Path s), path_tail = path_tail (Path s)\<rparr>"
    by (rule Path_of_parts) (use Path_root_cases Path_tail_props in blast)+
  then show ?thesis by (cases "Path s") simp
qed

lemma path_str_normal:
  assumes "s \<noteq> []"
    and "\<forall>x\<in>set (split_sep CHR ''/'' (snd (splitroot s))). x \<noteq> [] \<and> x \<noteq> ''.''"
  shows "path_str (Path s) = s"
proof -
  have "filter (\<lambda>x. x \<noteq> [] \<and> x \<noteq> ''.'') (split_sep CHR ''/'' (snd (splitroot s)))
        = split_sep CHR ''/'' (snd (splitroot s))"
    using assms(2) by (intro filter_id_conv) auto
  then show ?thesis
    using assms(1) by (simp add: path_str_def Path_def join_split splitroot_append)
qed

lemma path_str_no_slash:
  assumes "s \<noteq> []" "s \<noteq> ''.''" "CHR ''/'' \<notin> set s"
  shows "path_str (Path s) = s"
proof -
  have "take 1 s \<noteq> ''/''" using assms by (cases s) auto
  then have "splitroot s = ([], s)" by (simp add: splitroot_def)
  then show ?thesis
    using assms by (intro path_str_normal) (auto simp: split_sep_id)
qed

lemma splitroot_suffix:
  assumes "CHR ''/'' \<notin> set suf" "suf \<noteq> []"
  shows "\<exists>pre'. snd (splitroot (pre @ suf)) = pre' @ suf"
proof -
  obtain x xs where suf: "suf = x # xs" "x \<noteq> CHR ''/''"
    using assms by (cases suf) auto
  show ?thesis
  proof (cases pre)
    case Nil
    then show ?thesis using suf by (auto simp: splitroot_def)
  next
    case (Cons p ps)
    show ?thesis
    proof (cases ps)
      case Nil
      with Cons suf show ?thesis by (auto simp: splitroot_def)
    next
      case (Cons q qs)
      with \<open>pre = p # ps\<close> suf show ?thesis by (auto simp: splitroot_def)
    qed
  qed
qed

lemma Path_suffix:
  assumes "CHR ''/'' \<notin> set suf" "suf \<noteq> []" "suf \<noteq> ''.''" "endswith s suf"
  shows "path_tail (Path s) \<noteq> [] \<and> endswith (last (path_tail (Path s))) suf \<and>
         endswith (path_str (Path s)) suf"
proof -
  obtain pre where s: "s = pre @ suf"
    using assms(4) by (auto simp: endswith_iff)
  obtain pre' where rel: "snd (splitroot s) = pre' @ suf"
    using splitroot_suffix [OF assms(1,2)] s by blast
  define S where "S = split_sep CHR ''/'' pre'"
  define y where "y = last S @ suf"
  have sp: "split_sep CHR ''/'' (snd (splitroot s)) = butlast S @ [y]"
    by (simp add: rel split_sep_append assms(1) S_def y_def)
  have y: "y \<noteq> []" "y \<noteq> ''.''"
    using assms(2,3) by (auto simp: y_def append_eq_Cons_conv)
  have "s \<noteq> []" using s assms(2) by simp
  then have tail: "path_tail (Path s) = filter (\<lambda>x. x \<noteq> [] \<and> x \<noteq> ''.'') (butlast S) @ [y]"
    using y by (simp add: Path_def sp)
  have "endswith (path_str (Path s)) suf"
    unfolding endswith_iff path_str_def Let_def tail join_sep_snoc y_def
    by auto
  moreover have "endswith y suf" by (auto simp: endswith_iff y_def)
  ultimately show ?thesis by (simp add: tail)
qed

section \<open>Walking and making directories\<close>

declare path_mkdir.simps [simp del]

lemma traverse_None_iff:
  "traverse fs r pre ds = None \<longleftrightarrow>
   (\<forall>k. 0 < k \<and> k \<le> length ds \<longrightarrow> fs \<lparr>path_root = r, path_tail = pre @ take k ds\<rparr> = Some Dir)"
proof (induction ds arbitrary: pre)
  case Nil
  then show ?case by simp
next
  case (Cons d ds)
  have "(\<forall>k. 0 < k \<and> k \<le> length (d # ds) \<longrightarrow> fs \<lparr>path_root = r, path_tail = pre @ take k (d # ds)\<rparr> = Some Dir)
    \<longleftrightarrow> fs \<lparr>path_root = r, path_tail = pre @ [d]\<rparr> = Some Dir \<and>
        (\<forall>k. 0 < k \<and> k \<le> length ds \<longrightarrow> fs \<lparr>path_root = r, path_tail = (pre @ [d]) @ take k ds\<rparr> = Some Dir)"
    (is "?L \<longleftrightarrow> ?A \<and> ?B")
  proof
    assume L: ?L
    have ?A using L [rule_format, of 1] by simp
    moreover have ?B
    proof (intro allI impI)
      fix k assume "0 < k \<and> k \<le> length ds"
      then show "fs \<lparr>path_root = r, path_tail = (pre @ [d]) @ take k ds\<rparr> = Some Dir"
        using L [rule_format, of "Suc k"] by simp
    qed
    ultimately show "?A \<and> ?B" ..
  next
    assume AB: "?A \<and> ?B"
    show ?L
    proof (intro allI impI)
      fix k assume k: "0 < k \<and> k \<le> length (d # ds)"
      then obtain j where j: "k = Suc j" by (cases k) auto
      show "fs \<lparr>path_root = r, path_tail = pre @ take k (d # ds)\<rparr> = Some Dir"
      proof (cases j)
        case 0
        with j AB show ?thesis by simp
      next
        case (Suc i)
        with j k AB show ?thesis by simp
      qed
    qed
  qed
  then show ?case
    using Cons.IH [of "pre @ [d]"] by (simp split: option.splits node.splits)
qed

lemma traverse_error:
  "traverse fs r pre ds = Some e \<Longrightarrow>
   e = FileNotFoundError \<or>
   (\<exists>k img. 0 < k \<and> k \<le> length ds \<and> fs \<lparr>path_root = r, path_tail = pre @ take k ds\<rparr> = Some (File img))"
proof (induction ds arbitrary: pre)
  case Nil
  then show ?case by simp
next
  case (Cons d ds)
  show ?case
  proof (cases "fs \<lparr>path_root = r, path_tail = pre @ [d]\<rparr>")
    case None
    with Cons.prems show ?thesis by simp
  next
    case (Some n)
    show ?thesis
    proof (cases n)
      case Dir
      with Some Cons.prems have "traverse fs r (pre @ [d]) ds = Some e" by simp
      from Cons.IH [OF this] show ?thesis
      proof
        assume "e = FileNotFoundError" then show ?thesis ..
      next
        assume "\<exists>k img. 0 < k \<and> k \<le> length ds \<and>
          fs \<lparr>path_root = r, path_tail = (pre @ [d]) @ take k ds\<rparr> = Some (File img)"
        then obtain k img where "k \<le> length ds"
          "fs \<lparr>path_root = r, path_tail = (pre @ [d]) @ take k ds\<rparr> = Some (File img)"
          by blast
        then have "0 < Suc k \<and> Suc k \<le> length (d # ds) \<and>
          fs \<lparr>path_root = r, path_tail = pre @ take (Suc k) (d # ds)\<rparr> = Some (File img)"
          by simp
        then show ?thesis by blast
      qed
    next
      case (File img)
      with Some have "0 < (1::nat) \<and> 1 \<le> length (d # ds) \<and>
          fs \<lparr>path_root = r, path_tail = pre @ take 1 (d # ds)\<rparr> = Some (File img)"
        by simp
      then show ?thesis by blast
    qed
  qed
qed

lemma blocked_iff:
  "blocked fs p \<longleftrightarrow>
   (\<exists>k img. 0 < k \<and> k \<le> length (path_tail p) \<and>
      fs \<lparr>path_root = path_root p, path_tail = take k (path_tail p)\<rparr> = Some (File img))"
proof -
  have *: "(case x of Some (File _) \<Rightarrow> True | _ \<Rightarrow> False) \<longleftrightarrow> (\<exists>img. x = Some (File img))"
    for x :: "'a node option"
    by (auto split: option.splits node.splits)
  have "k \<in> {1..n} \<longleftrightarrow> 0 < k \<and> k \<le> n" for k n :: nat by auto
  then show ?thesis unfolding blocked_def * by blast
qed

lemma with_dirs_id:
  assumes "traverse fs r [] qs = None"
  shows "with_dirs fs \<lparr>path_root = r, path_tail = qs\<rparr> = fs"
proof
  fix q :: path
  show "with_dirs fs \<lparr>path_root = r, path_tail = qs\<rparr> q = fs q"
  proof (cases "path_root q = r \<and> path_tail q \<noteq> [] \<and> take (length (path_tail q)) qs = path_tail q")
    case True
    define k where "k = length (path_tail q)"
    have "length (take (length (path_tail q)) qs) = length (path_tail q)"
      using True by simp
    then have "k \<le> length qs" unfolding k_def by simp
    moreover have "0 < k" "take k qs = path_tail q"
      using True unfolding k_def by auto
    ultimately have k: "0 < k" "k \<le> length qs" "take k qs = path_tail q" by auto
    have "q = \<lparr>path_root = r, path_tail = [] @ take k qs\<rparr>"
      using True k by (cases q) simp
    moreover have "fs \<lparr>path_root = r, path_tail = [] @ take k qs\<rparr> = Some Dir"
      using assms k unfolding traverse_None_iff by blast
    ultimately show ?thesis using True by (simp add: with_dirs_def)
  next
    case False
    then show ?thesis by (auto simp: with_dirs_def)
  qed
qed

lemma traverse_with_dirs:
  "traverse (with_dirs fs \<lparr>path_root = r, path_tail = qs\<rparr>) r [] qs = None"
  unfolding traverse_None_iff by (auto simp: with_dirs_def)

lemma with_dirs_snoc:
  "with_dirs fs \<lparr>path_root = r, path_tail = qs @ [d]\<rparr> =
   (with_dirs fs \<lparr>path_root = r, path_tail = qs\<rparr>)(\<lparr>path_root = r, path_tail = qs @ [d]\<rparr> \<mapsto> Dir)"
proof
  fix q :: path
  obtain r' t where q: "q = \<lparr>path_root = r', path_tail = t\<rparr>" by (cases q) auto
  have "take (length t) (qs @ [d]) = t \<longleftrightarrow> take (length t) qs = t \<or> t = qs @ [d]"
  proof (cases "length t \<le> length qs")
    case True
    then show ?thesis by auto
  next
    case False
    then have "take (length t) (qs @ [d]) = qs @ [d]" "take (length t) qs = qs" by auto
    with False show ?thesis by auto
  qed
  then show "with_dirs fs \<lparr>path_root = r, path_tail = qs @ [d]\<rparr> q =
    ((with_dirs fs \<lparr>path_root = r, path_tail = qs\<rparr>)(\<lparr>path_root = r, path_tail = qs @ [d]\<rparr> \<mapsto> Dir)) q"
    unfolding q by (auto simp: with_dirs_def)
qed

lemma with_dirs_other:
  "length (path_tail p) < length (path_tail q) \<Longrightarrow> with_dirs fs p q = fs q"
  by (auto simp: with_dirs_def)

lemma path_mkdir_parents:
  "\<not> blocked fs \<lparr>path_root = r, path_tail = ps\<rparr> \<Longrightarrow>
   path_mkdir fs \<lparr>path_root = r, path_tail = ps\<rparr> True True =
     (Inr (), with_dirs fs \<lparr>path_root = r, path_tail = ps\<rparr>)"
proof (induction ps rule: rev_induct)
  case Nil
  have "with_dirs fs \<lparr>path_root = r, path_tail = []\<rparr> = fs"
    by (rule with_dirs_id) simp
  then show ?case
    by (subst path_mkdir.simps) (simp add: os_mkdir_def is_dir_def)
next
  case (snoc d qs)
  let ?p = "\<lparr>path_root = r, path_tail = qs @ [d]\<rparr>"
  let ?P0 = "\<lparr>path_root = r, path_tail = qs\<rparr>"
  have nb: "\<And>k img. 0 < k \<Longrightarrow> k \<le> Suc (length qs) \<Longrightarrow>
      fs \<lparr>path_root = r, path_tail = take k (qs @ [d])\<rparr> \<noteq> Some (File img)"
    using snoc.prems unfolding blocked_iff by auto
  have nb0: "\<not> blocked fs ?P0"
    unfolding blocked_iff
  proof (clarsimp)
    fix k img assume k: "0 < k" "k \<le> length qs"
      and f: "fs \<lparr>path_root = r, path_tail = take k qs\<rparr> = Some (File img)"
    then show False using nb [of k img] by simp
  qed
  have notfile: "\<And>img. fs ?p \<noteq> Some (File img)"
    using nb [of "Suc (length qs)"] by simp
  have parent: "parent ?p = ?P0" "parent ?p \<noteq> ?p"
    by (simp_all add: parent_def)
  define fs1 where "fs1 = with_dirs fs ?P0"
  have fs1p: "fs1 ?p = fs ?p"
    unfolding fs1_def by (rule with_dirs_other) simp
  have tr1: "traverse fs1 r [] qs = None"
    unfolding fs1_def by (rule traverse_with_dirs)
  have goal: "with_dirs fs ?p = fs1(?p \<mapsto> Dir)"
    unfolding fs1_def by (rule with_dirs_snoc)
  \<comment> \<open>one attempt with the directories above in place\<close>
  have attempt: "path_mkdir fs1 ?p b True = (Inr (), fs1(?p \<mapsto> Dir))" for b
  proof (cases "fs1 ?p")
    case None
    then show ?thesis
      by (subst path_mkdir.simps) (simp add: os_mkdir_def tr1)
  next
    case (Some n)
    have dir: "fs1 ?p = Some Dir"
    proof (cases n)
      case Dir
      with Some show ?thesis by simp
    next
      case (File img)
      with Some fs1p have "fs ?p = Some (File img)" by simp
      with notfile show ?thesis by blast
    qed
    then have "fs1(?p \<mapsto> Dir) = fs1" by (simp add: fun_upd_idem)
    then show ?thesis
      by (subst path_mkdir.simps) (simp add: os_mkdir_def tr1 dir is_dir_def)
  qed
  show ?case
  proof (cases "traverse fs r [] qs")
    case None
    then have eq: "fs1 = fs" unfolding fs1_def by (rule with_dirs_id)
    have "path_mkdir fs1 ?p True True = (Inr (), with_dirs fs ?p)"
      using attempt [of True] by (simp only: goal)
    then show ?thesis by (simp only: eq)
  next
    case (Some e)
    have "e = FileNotFoundError"
    proof (rule ccontr)
      assume "e \<noteq> FileNotFoundError"
      with traverse_error [OF Some] obtain k img where "0 < k" "k \<le> length qs"
        "fs \<lparr>path_root = r, path_tail = [] @ take k qs\<rparr> = Some (File img)"
        by blast
      then have "blocked fs ?P0" unfolding blocked_iff by auto
      with nb0 show False ..
    qed
    with Some have os: "os_mkdir fs ?p = Inl FileNotFoundError"
      by (simp add: os_mkdir_def)
    have IH: "path_mkdir fs ?P0 True True = (Inr (), fs1)"
      unfolding fs1_def using snoc.IH [OF nb0] .
    show ?thesis
      by (subst path_mkdir.simps) (simp add: os parent IH attempt goal)
  qed
qed

lemma path_mkdir_exists:
  "is_dir fs p \<Longrightarrow> path_mkdir fs p True True = (Inr (), fs)"
  by (subst path_mkdir.simps) (auto simp: is_dir_def os_mkdir_def)

section \<open>What an export does\<close>

lemma path_mkdir_creates:
  "\<not> blocked fs p \<Longrightarrow> path_mkdir fs p True True = (Inr (), with_dirs fs p)"
  using path_mkdir_parents [of fs "path_root p" "path_tail p"] by (cases p) simp

lemma traverse_is_dir:
  assumes "traverse fs r [] ps = None"
  shows "is_dir fs \<lparr>path_root = r, path_tail = ps\<rparr>"
proof (cases "ps = []")
  case True
  then show ?thesis by (simp add: is_dir_def)
next
  case False
  have all: "\<And>k. 0 < k \<Longrightarrow> k \<le> length ps \<Longrightarrow> fs \<lparr>path_root = r, path_tail = take k ps\<rparr> = Some Dir"
    using assms unfolding traverse_None_iff by simp
  have "fs \<lparr>path_root = r, path_tail = ps\<rparr> = Some Dir"
    using all [of "length ps"] False by simp
  moreover have "traverse fs r [] (butlast ps) = None"
    unfolding traverse_None_iff
  proof (intro allI impI)
    fix k assume k: "0 < k \<and> k \<le> length (butlast ps)"
    then have "k \<le> length ps - 1" by auto
    then have "take k (butlast ps) = take k ps"
      by (simp only: butlast_conv_take take_take min_absorb1)
    moreover have "0 < k" "k \<le> length ps" using k by auto
    ultimately show "fs \<lparr>path_root = r, path_tail = [] @ take k (butlast ps)\<rparr> = Some Dir"
      using all [of k] by simp
  qed
  ultimately show ?thesis by (simp add: is_dir_def)
qed

lemma is_dir_with_dirs: "is_dir (with_dirs fs p) p"
  using traverse_is_dir [OF traverse_with_dirs, of fs "path_root p" "path_tail p"]
  by (cases p) simp

lemma png_filename_alt:
  "png_filename f = (if endswith f ''.png'' then f else f @ ''.png'')"
  by (simp add: png_filename_def)

lemma png_filename_endswith: "endswith (png_filename f) ''.png''"
  by (auto simp: png_filename_def endswith_iff)

lemma png_filename_idem: "png_filename (png_filename f) = png_filename f"
  using png_filename_endswith [of f] by (simp add: png_filename_def)

lemma png_path_tail: "path_tail (Path (png_filename f)) \<noteq> []"
  using Path_suffix [of "''.png''" "png_filename f"] png_filename_endswith by simp

lemma png_path_str_endswith: "endswith (path_str (Path (png_filename f))) ''.png''"
  using Path_suffix [of "''.png''" "png_filename f"] png_filename_endswith by simp

lemma write_bytes_child:
  assumes tail: "path_tail p \<noteq> []"
    and nd: "fs p \<noteq> Some Dir"
  shows "write_bytes (with_dirs fs (parent p)) p img =
           Inr ((with_dirs fs (parent p))(p \<mapsto> File img))"
proof -
  have par: "parent p = \<lparr>path_root = path_root p, path_tail = butlast (path_tail p)\<rparr>"
    using tail by (cases p) (simp add: parent_def)
  have tr: "traverse (with_dirs fs (parent p)) (path_root p) [] (butlast (path_tail p)) = None"
    unfolding par by (rule traverse_with_dirs)
  have "length (path_tail (parent p)) < length (path_tail p)"
    using tail by (simp add: par)
  then have "with_dirs fs (parent p) p = fs p"
    by (rule with_dirs_other)
  with nd have "with_dirs fs (parent p) p \<noteq> Some Dir" by simp
  then show ?thesis
    using tail tr by (auto simp: write_bytes_def split: option.splits node.splits)
qed

lemma export_ok:
  fixes E fig f width height scale w
  defines "P \<equiv> Path (png_filename f)"
  defines "req \<equiv> \<lparr>req_figure = fig, req_file = path_str P, req_width = width,
        req_height = height, req_scale = scale, req_format = ''png'', req_engine = ''kaleido''\<rparr>"
  defines "img \<equiv> \<lparr>img_figure = fig, px_width = of_int width * scale,
        px_height = of_int height * scale\<rparr>"
  assumes E: "E req"
    and nb: "\<not> blocked (files w) (parent P)"
    and nd: "files w P \<noteq> Some Dir"
  shows "export_png_high_quality E fig f (Some width) (Some height) (Some scale) w =
     (Inr (path_str P),
      w\<lparr>requests := requests w @ [req],
        files := (with_dirs (files w) (parent P))(P \<mapsto> File img)\<rparr>)"
proof -
  have mk: "path_mkdir (files w) (parent P) True True = (Inr (), with_dirs (files w) (parent P))"
    using nb by (rule path_mkdir_creates)
  have rt: "Path (path_str P) = P"
    unfolding P_def by (rule Path_str_roundtrip)
  have tail: "path_tail P \<noteq> []"
    unfolding P_def by (rule png_path_tail)
  have wr: "write_bytes (with_dirs (files w) (parent P)) P img =
           Inr ((with_dirs (files w) (parent P))(P \<mapsto> File img))"
    using tail nd by (rule write_bytes_child)
  have ti: "to_image E req = Inr img"
    using E by (simp add: to_image_def req_def img_def)
  have wi: "write_image E req (w\<lparr>files := with_dirs (files w) (parent P)\<rparr>) =
      (Inr (), w\<lparr>requests := requests w @ [req],
        files := (with_dirs (files w) (parent P))(P \<mapsto> File img)\<rparr>)"
    using wr rt by (simp add: write_image_def ti Let_def) (simp add: req_def)
  show ?thesis
    unfolding export_png_high_quality_def
    by (simp add: Let_def P_def [symmetric] mk req_def [symmetric] wi)
qed

lemma export_Inr:
  assumes ok: "export_png_high_quality E fig f width_arg height_arg scale_arg w = (Inr p, w')"
  shows "p = path_str (Path (png_filename f)) \<and>
    requests w' = requests w @
      [\<lparr>req_figure = fig, req_file = p,
        req_width = (case width_arg of None \<Rightarrow> 1200 | Some v \<Rightarrow> v),
        req_height = (case height_arg of None \<Rightarrow> 800 | Some v \<Rightarrow> v),
        req_scale = (case scale_arg of None \<Rightarrow> 2 | Some v \<Rightarrow> v),
        req_format = ''png'', req_engine = ''kaleido''\<rparr>] \<and>
    files w' (Path p) =
      Some (File \<lparr>img_figure = fig,
        px_width = of_int (case width_arg of None \<Rightarrow> 1200 | Some v \<Rightarrow> v) *
                   (case scale_arg of None \<Rightarrow> 2 | Some v \<Rightarrow> v),
        px_height = of_int (case height_arg of None \<Rightarrow> 800 | Some v \<Rightarrow> v) *
                   (case scale_arg of None \<Rightarrow> 2 | Some v \<Rightarrow> v)\<rparr>)"
proof -
  define P where "P = Path (png_filename f)"
  define req where "req = \<lparr>req_figure = fig, req_file = path_str P,
        req_width = (case width_arg of None \<Rightarrow> 1200 | Some v \<Rightarrow> v),
        req_height = (case height_arg of None \<Rightarrow> 800 | Some v \<Rightarrow> v),
        req_scale = (case scale_arg of None \<Rightarrow> 2 | Some v \<Rightarrow> v),
        req_format = ''png'', req_engine = ''kaleido''\<rparr>"
  obtain r1 fs1 where mk: "path_mkdir (files w) (parent P) True True = (r1, fs1)"
    by (cases "path_mkdir (files w) (parent P) True True") auto
  obtain r2 w2 where wi: "write_image E req (w\<lparr>files := fs1\<rparr>) = (r2, w2)"
    by (cases "write_image E req (w\<lparr>files := fs1\<rparr>)") auto
  have ex: "export_png_high_quality E fig f width_arg height_arg scale_arg w =
      (case r1 of Inl e \<Rightarrow> (Inl e, w\<lparr>files := fs1\<rparr>)
       | Inr u \<Rightarrow> (case r2 of Inl e \<Rightarrow> (Inl e, w2) | Inr u \<Rightarrow> (Inr (path_str P), w2)))"
    unfolding export_png_high_quality_def
    by (simp add: Let_def P_def [symmetric] req_def [symmetric] mk wi split: sum.splits)
  from ok ex obtain u1 u2 where r: "r1 = Inr u1" "r2 = Inr u2" and p: "p = path_str P" and w': "w' = w2"
    by (auto split: sum.splits)
  have rt: "Path (path_str P) = P"
    unfolding P_def by (rule Path_str_roundtrip)
  from wi r obtain img fs2 where
    ti: "to_image E req = Inr img" and
    wb: "write_bytes fs1 P img = Inr fs2" and
    w2: "w2 = w\<lparr>files := fs2, requests := requests w @ [req]\<rparr>"
    by (auto simp: write_image_def Let_def req_def rt split: sum.splits)
  from ti have img: "img = \<lparr>img_figure = fig,
        px_width = of_int (req_width req) * req_scale req,
        px_height = of_int (req_height req) * req_scale req\<rparr>"
    by (auto simp: to_image_def req_def split: if_splits)
  from wb have "fs2 P = Some (File img)"
    by (auto simp: write_bytes_def split: if_splits option.splits node.splits)
  with p w' w2 img rt show ?thesis
    by (simp add: P_def [symmetric]) (simp add: req_def)
qed

lemma second_export_state:
  fixes fs :: "'i filesystem" and P :: path and img img' :: 'i
  assumes tail: "path_tail P \<noteq> []"
  defines "fs1 \<equiv> (with_dirs fs (parent P))(P \<mapsto> File img)"
  shows "\<not> blocked fs1 (parent P)" and "fs1 P \<noteq> Some Dir" and "is_dir fs1 (parent P)"
    and "(with_dirs fs1 (parent P))(P \<mapsto> File img') = (with_dirs fs (parent P))(P \<mapsto> File img')"
proof -
  define B where "B = butlast (path_tail P)"
  have par: "parent P = \<lparr>path_root = path_root P, path_tail = B\<rparr>"
    using tail by (cases P) (simp add: parent_def B_def)
  have lenB: "length B < length (path_tail P)"
    using tail by (simp add: B_def)
  have tr: "traverse fs1 (path_root P) [] B = None"
    unfolding traverse_None_iff
  proof (intro allI impI)
    fix k assume k: "0 < k \<and> k \<le> length B"
    let ?q = "\<lparr>path_root = path_root P, path_tail = [] @ take k B\<rparr>"
    have "?q \<noteq> P"
    proof
      assume "?q = P"
      then have "length (path_tail ?q) = length (path_tail P)" by (simp only:)
      with lenB k show False by simp
    qed
    moreover have "with_dirs fs (parent P) ?q = Some Dir"
    proof -
      have "B \<noteq> []" using k by auto
      then have "take k B \<noteq> []" using k by simp
      moreover have "take (length (take k B)) B = take k B" using k by (simp add: min_absorb2)
      ultimately show ?thesis unfolding par with_dirs_def by simp
    qed
    ultimately show "fs1 ?q = Some Dir"
      by (simp add: fs1_def)
  qed
  then have id: "with_dirs fs1 (parent P) = fs1"
    unfolding par by (rule with_dirs_id)
  show dir: "is_dir fs1 (parent P)"
    unfolding par using tr by (rule traverse_is_dir)
  show "\<not> blocked fs1 (parent P)"
    unfolding blocked_iff using tr unfolding traverse_None_iff par by auto
  show "fs1 P \<noteq> Some Dir" by (simp add: fs1_def)
  show "(with_dirs fs1 (parent P))(P \<mapsto> File img') = (with_dirs fs (parent P))(P \<mapsto> File img')"
    unfolding id by (simp add: fs1_def)
qed

section \<open>The styler: palette, colour assignment, slot selection\<close>

text \<open>
  Claim C10.  The accent palette is a constant of seventeen colours, so it is not empty;
  for every trace index \<open>i\<close> the modulo \<^verbatim>\<open>i % len(CHART_COLORS)\<close> does not divide by
  zero, its value is a valid index into the palette, and the whole lookup
  \<^verbatim>\<open>CHART_COLORS[i % len(CHART_COLORS)]\<close> returns a colour instead of raising.
\<close>

theorem palette_index_defined:
  "length CHART_COLORS = 17 \<and> CHART_COLORS \<noteq> [] \<and>
   py_mod i (length CHART_COLORS) = Inr (i mod length CHART_COLORS) \<and>
   i mod length CHART_COLORS < length CHART_COLORS \<and>
   palette_color i = Inr (CHART_COLORS ! (i mod length CHART_COLORS))"
proof -
  have "CHART_COLORS \<noteq> []" by (simp add: CHART_COLORS_def)
  then show ?thesis
    using palette_color_Inr [of i] by (simp add: length_CHART_COLORS py_mod_def)
qed

text \<open>
  Claim C1.  Cyclic colour assignment, for a figure whose traces expose a colour that
  can be set wherever \<^verbatim>\<open>update_layout\<close> assigns one (\<open>stylable\<close>): the call returns
  without raising and keeps the number of traces, and for every index \<open>i\<close> below that
  number the trace at \<open>i\<close> is given the palette colour at index \<open>i mod P\<close>, \<open>P\<close> the
  length of the palette: in its line object when it has one, otherwise in its marker
  object when it has one.  Nothing relates the number of traces to \<open>P\<close>, so this holds
  with fewer traces than colours, as many, and more (the colours repeat).
\<close>

theorem update_layout_cyclic_colors:
  assumes "i < length (fig_data fig)" and "list_all stylable (fig_data fig)"
  shows "\<exists>fig'. update_layout U fig title = (None, fig') \<and>
     length (fig_data fig') = length (fig_data fig) \<and>
     (\<forall>l. trace_line (fig_data fig ! i) = Obj l \<longrightarrow>
        trace_line (fig_data fig' ! i) =
          Obj (l\<lparr>slot_color := Some (CHART_COLORS ! (i mod length CHART_COLORS))\<rparr>)) \<and>
     (\<forall>m. (\<forall>l. trace_line (fig_data fig ! i) \<noteq> Obj l) \<longrightarrow>
        trace_marker (fig_data fig ! i) = Obj m \<longrightarrow>
        trace_marker (fig_data fig' ! i) =
          Obj (m\<lparr>slot_color := Some (CHART_COLORS ! (i mod length CHART_COLORS))\<rparr>))"
proof -
  obtain fig' where fig': "update_layout U fig title = (None, fig')"
    "length (fig_data fig') = length (fig_data fig)"
    and t: "color_trace i (fig_data fig ! i) = Inr (fig_data fig' ! i)"
    using update_layout_trace [OF assms] by blast
  have "stylable (fig_data fig ! i)"
    using assms by (simp add: list_all_length)
  then have "fig_data fig' ! i =
     (case trace_line (fig_data fig ! i) of
        Obj l \<Rightarrow>
          (fig_data fig ! i)\<lparr>trace_line := Obj (l\<lparr>slot_color := Some (CHART_COLORS ! (i mod 17))\<rparr>)\<rparr>
      | _ \<Rightarrow>
         (case trace_marker (fig_data fig ! i) of
            Obj m \<Rightarrow>
              (fig_data fig ! i)\<lparr>trace_marker := Obj (m\<lparr>slot_color := Some (CHART_COLORS ! (i mod 17))\<rparr>)\<rparr>
          | _ \<Rightarrow> fig_data fig ! i))"
    using t by (simp add: color_trace_stylable)
  then have "(\<forall>l. trace_line (fig_data fig ! i) = Obj l \<longrightarrow>
        trace_line (fig_data fig' ! i) =
          Obj (l\<lparr>slot_color := Some (CHART_COLORS ! (i mod length CHART_COLORS))\<rparr>)) \<and>
     (\<forall>m. (\<forall>l. trace_line (fig_data fig ! i) \<noteq> Obj l) \<longrightarrow>
        trace_marker (fig_data fig ! i) = Obj m \<longrightarrow>
        trace_marker (fig_data fig' ! i) =
          Obj (m\<lparr>slot_color := Some (CHART_COLORS ! (i mod length CHART_COLORS))\<rparr>))"
    by (auto simp: length_CHART_COLORS split: attr.splits)
  with fig' show ?thesis by blast
qed

lemma scatter_figure_stylable: "list_all stylable (fig_data (scatter_figure n))"
  by (simp add: scatter_figure_def list_all_iff stylable_def Scatter_def)

text \<open>
  Three, seventeen and eighteen scatter traces: the last trace of each figure gets the
  third, the last and again the first colour of the palette.
\<close>

theorem update_layout_cyclic_colors_witness:
  "(\<exists>fig'. update_layout push_kwargs (scatter_figure 3) ''Commits by Month'' = (None, fig') \<and>
      length (fig_data fig') = 3 \<and>
      trace_line (fig_data fig' ! 2) = Obj \<lparr>slot_color = Some ''#7c3aed'', slot_props = ()\<rparr>) \<and>
   (\<exists>fig'. update_layout push_kwargs (scatter_figure 17) ''Commits by Month'' = (None, fig') \<and>
      trace_line (fig_data fig' ! 16) = Obj \<lparr>slot_color = Some ''#48BB78'', slot_props = ()\<rparr>) \<and>
   (\<exists>fig'. update_layout push_kwargs (scatter_figure 18) ''Commits by Month'' = (None, fig') \<and>
      trace_line (fig_data fig' ! 17) = Obj \<lparr>slot_color = Some ''#d97706'', slot_props = ()\<rparr>)"
  using update_layout_cyclic_colors [of 2 "scatter_figure 3" push_kwargs "''Commits by Month''"]
    update_layout_cyclic_colors [of 16 "scatter_figure 17" push_kwargs "''Commits by Month''"]
    update_layout_cyclic_colors [of 17 "scatter_figure 18" push_kwargs "''Commits by Month''"]
    scatter_figure_stylable [of 3] scatter_figure_stylable [of 17] scatter_figure_stylable [of 18]
  by (auto simp: scatter_figure_def Scatter_def CHART_COLORS_def)






section \<open>The styler leaves the series alone\<close>

lemma attr_keep: "\<exists>c. map_attr (\<lambda>s. s\<lparr>slot_color := c\<rparr>) a = a" for a :: "'c slot attr"
proof (cases a)
  case (Obj s)
  have "s\<lparr>slot_color := slot_color s\<rparr> = s" by simp
  then have "map_attr (\<lambda>s'. s'\<lparr>slot_color := slot_color s\<rparr>) a = a"
    unfolding Obj by simp
  then show ?thesis by (rule exI)
qed auto

lemma trace_frame_refl:
  "\<exists>cl cm. t = t\<lparr>trace_line := map_attr (\<lambda>s. s\<lparr>slot_color := cl\<rparr>) (trace_line t),
                  trace_marker := map_attr (\<lambda>s. s\<lparr>slot_color := cm\<rparr>) (trace_marker t)\<rparr>"
proof -
  obtain cl where "map_attr (\<lambda>s. s\<lparr>slot_color := cl\<rparr>) (trace_line t) = trace_line t"
    using attr_keep by blast
  moreover obtain cm where "map_attr (\<lambda>s. s\<lparr>slot_color := cm\<rparr>) (trace_marker t) = trace_marker t"
    using attr_keep by blast
  ultimately have "t = t\<lparr>trace_line := map_attr (\<lambda>s. s\<lparr>slot_color := cl\<rparr>) (trace_line t),
                  trace_marker := map_attr (\<lambda>s. s\<lparr>slot_color := cm\<rparr>) (trace_marker t)\<rparr>"
    by simp
  then show ?thesis by blast
qed

lemma color_trace_frame:
  assumes "color_trace i t = Inr t'"
  shows "\<exists>cl cm. t' = t\<lparr>trace_line := map_attr (\<lambda>s. s\<lparr>slot_color := cl\<rparr>) (trace_line t),
                         trace_marker := map_attr (\<lambda>s. s\<lparr>slot_color := cm\<rparr>) (trace_marker t)\<rparr>"
proof -
  define c where "c = Some (CHART_COLORS ! (i mod 17))"
  have st: "stylable t"
    using assms color_trace_not_stylable [of t i] by auto
  have t': "t' =
     (case trace_line t of
        Obj l \<Rightarrow> t\<lparr>trace_line := Obj (l\<lparr>slot_color := c\<rparr>)\<rparr>
      | _ \<Rightarrow>
         (case trace_marker t of
            Obj m \<Rightarrow> t\<lparr>trace_marker := Obj (m\<lparr>slot_color := c\<rparr>)\<rparr>
          | _ \<Rightarrow> t))"
    using assms unfolding c_def by (simp add: color_trace_stylable [OF st])
  obtain cl0 where cl0: "map_attr (\<lambda>s. s\<lparr>slot_color := cl0\<rparr>) (trace_line t) = trace_line t"
    using attr_keep by blast
  obtain cm0 where cm0: "map_attr (\<lambda>s. s\<lparr>slot_color := cm0\<rparr>) (trace_marker t) = trace_marker t"
    using attr_keep by blast
  show ?thesis
  proof (cases "\<exists>l. trace_line t = Obj l")
    case True
    then obtain l where l: "trace_line t = Obj l" by blast
    with t' cm0 have "t' = t\<lparr>trace_line := map_attr (\<lambda>s. s\<lparr>slot_color := c\<rparr>) (trace_line t),
                         trace_marker := map_attr (\<lambda>s. s\<lparr>slot_color := cm0\<rparr>) (trace_marker t)\<rparr>"
      by simp
    then show ?thesis by blast
  next
    case noline: False
    show ?thesis
    proof (cases "\<exists>m. trace_marker t = Obj m")
      case True
      then obtain m where m: "trace_marker t = Obj m" by blast
      from noline t' m have "t' = t\<lparr>trace_marker := Obj (m\<lparr>slot_color := c\<rparr>)\<rparr>"
        by (cases "trace_line t") auto
      with m cl0 have "t' = t\<lparr>trace_line := map_attr (\<lambda>s. s\<lparr>slot_color := cl0\<rparr>) (trace_line t),
                         trace_marker := map_attr (\<lambda>s. s\<lparr>slot_color := c\<rparr>) (trace_marker t)\<rparr>"
        by simp
      then show ?thesis by blast
    next
      case False
      with noline t' have "t' = t"
        by (cases "trace_line t"; cases "trace_marker t") auto
      then show ?thesis using trace_frame_refl by blast
    qed
  qed
qed

lemma map_eq_nth:
  "length xs = length ys \<Longrightarrow> (\<And>k. k < length ys \<Longrightarrow> f (xs ! k) = f (ys ! k)) \<Longrightarrow>
   map f xs = map f ys"
  by (simp add: list_eq_iff_nth_eq)

text \<open>
  Claim C6.  Styling does not touch the data: whether \<^verbatim>\<open>update_layout\<close> returns or
  raises, the figure it leaves has traces with, one by one and in the same order, the x
  values, the y values and the name they had; each trace is the trace it was but for the
  colour of its line object and the colour of its marker object.  The figure has a layout
  and its traces and nothing else, so what changes is the layout and colour presentation
  only.
\<close>

theorem update_layout_preserves_series:
  "\<exists>r fig'. update_layout U fig title = (r, fig') \<and>
     map trace_x (fig_data fig') = map trace_x (fig_data fig) \<and>
     map trace_y (fig_data fig') = map trace_y (fig_data fig) \<and>
     map trace_name (fig_data fig') = map trace_name (fig_data fig) \<and>
     list_all2
       (\<lambda>t t'. \<exists>cl cm.
          t' = t\<lparr>trace_line := map_attr (\<lambda>s. s\<lparr>slot_color := cl\<rparr>) (trace_line t),
                 trace_marker := map_attr (\<lambda>s. s\<lparr>slot_color := cm\<rparr>) (trace_marker t)\<rparr>)
       (fig_data fig) (fig_data fig')"
proof -
  obtain r fig' where res: "update_layout U fig title = (r, fig')"
    by (cases "update_layout U fig title") auto
  from update_layout_run [of U fig title] res
  have d: "fig_data fig' = snd (color_traces 0 (fig_data fig))"
    by auto
  have len: "length (fig_data fig') = length (fig_data fig)"
    unfolding d by (rule color_traces_length)
  have frame: "\<exists>cl cm. fig_data fig' ! k =
      (fig_data fig ! k)\<lparr>trace_line := map_attr (\<lambda>s. s\<lparr>slot_color := cl\<rparr>) (trace_line (fig_data fig ! k)),
        trace_marker := map_attr (\<lambda>s. s\<lparr>slot_color := cm\<rparr>) (trace_marker (fig_data fig ! k))\<rparr>"
    if k: "k < length (fig_data fig)" for k
  proof -
    from color_traces_each [OF k, of 0]
    have "fig_data fig' ! k = fig_data fig ! k \<or>
          color_trace k (fig_data fig ! k) = Inr (fig_data fig' ! k)"
      unfolding d by simp
    then show ?thesis
    proof
      assume "fig_data fig' ! k = fig_data fig ! k"
      then show ?thesis using trace_frame_refl [of "fig_data fig ! k"] by simp
    next
      assume "color_trace k (fig_data fig ! k) = Inr (fig_data fig' ! k)"
      then show ?thesis by (rule color_trace_frame)
    qed
  qed
  have same: "trace_x (fig_data fig' ! k) = trace_x (fig_data fig ! k) \<and>
      trace_y (fig_data fig' ! k) = trace_y (fig_data fig ! k) \<and>
      trace_name (fig_data fig' ! k) = trace_name (fig_data fig ! k)"
    if k: "k < length (fig_data fig)" for k
    using frame [OF k] by auto
  have x: "map trace_x (fig_data fig') = map trace_x (fig_data fig)"
    using len same by (intro map_eq_nth) auto
  have y: "map trace_y (fig_data fig') = map trace_y (fig_data fig)"
    using len same by (intro map_eq_nth) auto
  have n: "map trace_name (fig_data fig') = map trace_name (fig_data fig)"
    using len same by (intro map_eq_nth) auto
  have "list_all2
       (\<lambda>t t'. \<exists>cl cm.
          t' = t\<lparr>trace_line := map_attr (\<lambda>s. s\<lparr>slot_color := cl\<rparr>) (trace_line t),
                 trace_marker := map_attr (\<lambda>s. s\<lparr>slot_color := cm\<rparr>) (trace_marker t)\<rparr>)
       (fig_data fig) (fig_data fig')"
    using len frame by (intro list_all2_all_nthI) auto
  with res x y n show ?thesis by blast
qed

section \<open>The theme is the same at every call\<close>

text \<open>
  Claim C8.  There is one descriptor that every call of \<^verbatim>\<open>get_plotly_theme()\<close>
  returns, whatever the state of the process it is called in: the call takes no input,
  it does not raise, and the dictionary it returns reads, field for field and through all
  nested dictionaries, as that descriptor; so the results of any two calls are equal
  field for field.  The call has no side effect: the dictionary returned is a new object,
  every object that was on the heap before is as it was, and the rest of the state of
  the process is unchanged.
\<close>

theorem get_plotly_theme_deterministic:
  "\<exists>d. \<forall>s :: 'w process. \<exists>a s'.
      get_plotly_theme s = (Inr (HRef a), s') \<and>
      reify 4 (proc_heap s') (HRef a) = Some d \<and>
      length (proc_heap s) \<le> a \<and>
      take (length (proc_heap s)) (proc_heap s') = proc_heap s \<and>
      proc_rest s' = proc_rest s"
proof -
  obtain kw where theme: "PLOTLY_THEME = Inr (PyDict [(''layout'', PyDict kw)])"
    using theme_layout_kwargs by blast
  have "\<exists>a s'. get_plotly_theme s = (Inr (HRef a), s') \<and>
      reify 4 (proc_heap s') (HRef a) = Some (PyDict [(''layout'', PyDict kw)]) \<and>
      length (proc_heap s) \<le> a \<and>
      take (length (proc_heap s)) (proc_heap s') = proc_heap s \<and>
      proc_rest s' = proc_rest s" for s :: "'w process"
  proof -
    obtain a s' where run: "get_plotly_theme s = (Inr (HRef a), s')" "length (proc_heap s) \<le> a"
      and val: "Inr (the (reify 4 (proc_heap s') (HRef a))) = PLOTLY_THEME"
        "reify 4 (proc_heap s') (HRef a) \<noteq> None"
      and frame: "take (length (proc_heap s)) (proc_heap s') = proc_heap s"
        "proc_rest s' = proc_rest s"
      using get_plotly_theme_run [of s] by blast
    from val(2) obtain y where y: "reify 4 (proc_heap s') (HRef a) = Some y"
      by auto
    with val(1) have "Inr y = PLOTLY_THEME" by simp
    then have "Inr y = (Inr (PyDict [(''layout'', PyDict kw)]) :: py_error + pyval)"
      unfolding theme .
    then have "y = PyDict [(''layout'', PyDict kw)]" by (rule Inr_inject)
    with y have "reify 4 (proc_heap s') (HRef a) = Some (PyDict [(''layout'', PyDict kw)])"
      by simp
    with run frame show ?thesis by blast
  qed
  then show ?thesis by blast
qed

section \<open>The two export entry points\<close>

text \<open>
  Claim C4.  \<^verbatim>\<open>export_png\<close> is \<^verbatim>\<open>export_png_high_quality\<close> on the same arguments:
  with a scale given (and the width and the height given or left to their common defaults
  1200 and 800) the two calls are the same operation with the same result and the same
  effect on the world.  They differ in the default scale only: left out, it is 1 for
  \<^verbatim>\<open>export_png\<close> and 2 for \<^verbatim>\<open>export_png_high_quality\<close>.
\<close>

theorem export_png_same_operation:
  "export_png E fig filename width_arg height_arg (Some scale) w =
     export_png_high_quality E fig filename width_arg height_arg (Some scale) w \<and>
   export_png E fig filename width_arg height_arg None w =
     export_png_high_quality E fig filename width_arg height_arg (Some 1) w \<and>
   export_png_high_quality E fig filename width_arg height_arg None w =
     export_png_high_quality E fig filename width_arg height_arg (Some 2) w"
  by (cases width_arg; cases height_arg)
     (simp_all add: export_png_def export_png_high_quality_def)

section \<open>Exports into an empty world\<close>

lemma export_empty_world:
  "\<exists>w'. export_png_high_quality accept_all fig f (Some width) (Some height) (Some scale)
          empty_world = (Inr (path_str (Path (png_filename f))), w')"
proof -
  have "\<not> blocked (files (empty_world :: 'a world)) (parent (Path (png_filename f)))"
    by (simp add: blocked_def empty_world_def)
  moreover have "files (empty_world :: 'a world) (Path (png_filename f)) \<noteq> Some Dir"
    by (simp add: empty_world_def)
  ultimately show ?thesis
    using export_ok [of accept_all fig f width height scale empty_world]
    by (simp add: accept_all_def)
qed

lemma resolved_dot_chart: "path_str (Path (png_filename ''./chart'')) = ''chart.png''"
  by (simp add: png_filename_def endswith_def Path_def splitroot_def path_str_def)

lemma resolved_chart: "path_str (Path (png_filename ''chart'')) = ''chart.png''"
  by (simp add: png_filename_def endswith_def Path_def splitroot_def path_str_def)

lemma resolved_out_commits: "path_str (Path (png_filename ''out/commits'')) = ''out/commits.png''"
  by (simp add: png_filename_def endswith_def Path_def splitroot_def path_str_def)

lemma resolved_upper: "path_str (Path (png_filename ''chart.PNG'')) = ''chart.PNG.png''"
  by (simp add: png_filename_def endswith_def Path_def splitroot_def path_str_def)

lemma resolved_lower: "path_str (Path (png_filename ''chart.png'')) = ''chart.png''"
  by (simp add: png_filename_def endswith_def Path_def splitroot_def path_str_def)

lemma resolved_nested: "png_filename ''out/a/b/chart'' = ''out/a/b/chart.png''"
  by (simp add: png_filename_def endswith_def)

lemma Path_nested:
  "Path ''out/a/b/chart.png'' = \<lparr>path_root = [], path_tail = [''out'', ''a'', ''b'', ''chart.png'']\<rparr>"
  "Path ''out/a/b'' = \<lparr>path_root = [], path_tail = [''out'', ''a'', ''b'']\<rparr>"
  "Path ''out/a'' = \<lparr>path_root = [], path_tail = [''out'', ''a'']\<rparr>"
  "Path ''out'' = \<lparr>path_root = [], path_tail = [''out'']\<rparr>"
  by (simp_all add: Path_def splitroot_def)

lemma str_nested:
  "path_str \<lparr>path_root = [], path_tail = [''out'', ''a'', ''b'', ''chart.png'']\<rparr> = ''out/a/b/chart.png''"
  by (simp add: path_str_def)

section \<open>The path an export returns\<close>

text \<open>
  Claim C3 as stated says that the path returned is the file name, with \<^verbatim>\<open>.png\<close>
  appended when it lacks that suffix.  The code returns \<^verbatim>\<open>str(Path(filename))\<close>, and
  pathlib drops a leading \<^verbatim>\<open>./\<close>: exporting to \<^verbatim>\<open>./chart\<close> returns
  \<^verbatim>\<open>chart.png\<close>, which is not \<^verbatim>\<open>./chart.png\<close>.
\<close>

theorem export_path_not_filename_counterexample:
  "fst (export_png_high_quality accept_all () ''./chart'' (Some 1200) (Some 800) (Some 2)
          empty_world) = Inr ''chart.png'' \<and>
   \<not> endswith ''./chart'' ''.png'' \<and>
   ''chart.png'' \<noteq> ''./chart'' @ ''.png''"
proof -
  obtain w' where "export_png_high_quality accept_all () ''./chart'' (Some 1200) (Some 800) (Some 2)
          empty_world = (Inr ''chart.png'', w')"
    using export_empty_world [of "()" "''./chart''" 1200 800 2] by (auto simp: resolved_dot_chart)
  then show ?thesis by (simp add: endswith_def)
qed

text \<open>
  Claim C3, amended.  Let the target be the file name, with \<^verbatim>\<open>.png\<close> appended exactly
  when the file name does not end in \<^verbatim>\<open>.png\<close>.  An export that succeeds returns the
  target as pathlib prints it, \<^verbatim>\<open>str(Path(target))\<close>; that is the target itself whenever
  no component of the target after its root is empty or \<^verbatim>\<open>.\<close> (the target is in
  pathlib's normal form already).  The string returned is the file name the rendering
  engine was handed with the last request, and a regular file stands at that path
  afterwards.  Exporting as \<^verbatim>\<open>chart\<close> and as \<^verbatim>\<open>chart.png\<close> is the same call: same
  result, same world.
\<close>

theorem export_path_resolved:
  assumes "export_png_high_quality E fig filename width_arg height_arg scale_arg w = (Inr p, w')"
  shows "(let target = (if endswith filename ''.png'' then filename else filename @ ''.png'') in
            p = path_str (Path target) \<and>
            ((\<forall>x\<in>set (split_sep CHR ''/'' (snd (splitroot target))). x \<noteq> [] \<and> x \<noteq> ''.'')
               \<longrightarrow> p = target)) \<and>
         req_file (last (requests w')) = p \<and>
         (\<exists>img. files w' (Path p) = Some (File img)) \<and>
         export_png_high_quality E fig ''chart'' width_arg height_arg scale_arg w =
           export_png_high_quality E fig ''chart.png'' width_arg height_arg scale_arg w"
proof -
  define target where "target = (if endswith filename ''.png'' then filename else filename @ ''.png'')"
  have tg: "png_filename filename = target"
    by (simp add: png_filename_def target_def)
  from export_Inr [OF assms] have p0: "p = path_str (Path (png_filename filename))"
    and rq: "\<exists>r. requests w' = requests w @ [r] \<and> req_file r = p"
    and written: "\<exists>img. files w' (Path p) = Some (File img)"
    by auto
  have p: "p = path_str (Path target)"
    using p0 tg by simp
  have "endswith target ''.png''"
    using png_filename_endswith [of filename] tg by simp
  then have ne: "target \<noteq> []" by (auto simp: endswith_def)
  have normal: "(\<forall>x\<in>set (split_sep CHR ''/'' (snd (splitroot target))). x \<noteq> [] \<and> x \<noteq> ''.'')
               \<longrightarrow> p = target"
    using path_str_normal [OF ne] p by simp
  have req: "req_file (last (requests w')) = p"
    using rq by auto
  have "png_filename ''chart'' = png_filename ''chart.png''"
    by (simp add: png_filename_def endswith_def)
  then have same: "export_png_high_quality E fig ''chart'' width_arg height_arg scale_arg w =
           export_png_high_quality E fig ''chart.png'' width_arg height_arg scale_arg w"
    by (simp add: export_png_high_quality_def)
  show ?thesis
    unfolding Let_def target_def [symmetric] using p normal req written same by blast
qed

text \<open>The export of the demonstration: \<^verbatim>\<open>out/commits\<close> at 1600 by 1000, scale 2.5.\<close>

theorem export_path_resolved_witness:
  "\<exists>w'. export_png_high_quality accept_all () ''out/commits'' (Some 1600) (Some 1000) (Some (5 / 2))
           empty_world = (Inr ''out/commits.png'', w') \<and>
        req_file (last (requests w')) = ''out/commits.png'' \<and>
        (\<exists>img. files w' (Path ''out/commits.png'') = Some (File img))"
proof -
  obtain w' where ok: "export_png_high_quality accept_all () ''out/commits'' (Some 1600) (Some 1000)
      (Some (5 / 2)) empty_world = (Inr ''out/commits.png'', w')"
    using export_empty_world [of "()" "''out/commits''" 1600 1000 "5 / 2"]
    by (auto simp: resolved_out_commits)
  from export_path_resolved [OF ok] ok show ?thesis by blast
qed

section \<open>The suffix test is case-sensitive\<close>

lemma endswith_same_length:
  assumes "endswith s a" "endswith s b" "length a = length b"
  shows "a = b"
proof -
  have "drop (length s - length a) s = a" "drop (length s - length b) s = b"
    using assms(1,2) unfolding endswith_def by blast+
  with assms(3) show ?thesis by metis
qed

lemma other_suffix_not_png:
  assumes "length u = 4" "u \<noteq> ''.png''" "endswith filename u"
  shows "\<not> endswith filename ''.png''"
proof
  assume png: "endswith filename ''.png''"
  have len: "length ''.png'' = length u" using assms(1) by simp
  have "''.png'' = u"
    using png assms(3) len by (rule endswith_same_length)
  with assms(2) show False by simp
qed

text \<open>
  Claim C9.  The suffix test is exact and case-sensitive.  Whatever an export returns ends
  in lowercase \<^verbatim>\<open>.png\<close>, so only a file name that ends in \<^verbatim>\<open>.png\<close> can come back
  unchanged.  A file name that ends in any other four characters \<open>u\<close> (another casing
  of the extension, such as \<^verbatim>\<open>.PNG\<close>) gets \<^verbatim>\<open>.png\<close> appended, and the path returned
  ends in the double extension \<open>u\<close> followed by \<^verbatim>\<open>.png\<close>.  For a file name without a
  directory part the path returned is the file name itself when it ends in \<^verbatim>\<open>.png\<close>,
  and the file name followed by \<^verbatim>\<open>.png\<close> otherwise.
\<close>

theorem export_suffix_case_sensitive:
  assumes "export_png_high_quality E fig filename width_arg height_arg scale_arg w = (Inr p, w')"
  shows "(p = filename \<longrightarrow> endswith filename ''.png'') \<and>
         (\<forall>u. length u = 4 \<and> u \<noteq> ''.png'' \<and> CHR ''/'' \<notin> set u \<and> endswith filename u \<longrightarrow>
              p = path_str (Path (filename @ ''.png'')) \<and> endswith p (u @ ''.png'')) \<and>
         (CHR ''/'' \<notin> set filename \<longrightarrow>
            (endswith filename ''.png'' \<longrightarrow> p = filename) \<and>
            (\<not> endswith filename ''.png'' \<longrightarrow> p = filename @ ''.png''))"
proof -
  from export_Inr [OF assms] have p: "p = path_str (Path (png_filename filename))"
    by blast
  have ends: "endswith p ''.png''"
    unfolding p by (rule png_path_str_endswith)
  have only: "p = filename \<longrightarrow> endswith filename ''.png''"
    using ends by auto
  have other: "p = path_str (Path (filename @ ''.png'')) \<and> endswith p (u @ ''.png'')"
    if u: "length u = 4 \<and> u \<noteq> ''.png'' \<and> CHR ''/'' \<notin> set u \<and> endswith filename u" for u
  proof -
    have "\<not> endswith filename ''.png''"
      using u by (intro other_suffix_not_png [of u]) auto
    then have p': "p = path_str (Path (filename @ ''.png''))"
      by (simp add: p png_filename_def)
    obtain pre where "filename = pre @ u"
      using u by (auto simp: endswith_iff)
    then have "endswith (filename @ ''.png'') (u @ ''.png'')"
      by (auto simp: endswith_iff)
    moreover have "CHR ''/'' \<notin> set (u @ ''.png'')" "u @ ''.png'' \<noteq> []" "u @ ''.png'' \<noteq> ''.''"
      using u by auto
    ultimately have "endswith (path_str (Path (filename @ ''.png''))) (u @ ''.png'')"
      using Path_suffix [of "u @ ''.png''" "filename @ ''.png''"] by blast
    with p' show ?thesis by simp
  qed
  have flat: "p = png_filename filename" if "CHR ''/'' \<notin> set filename"
  proof -
    have e: "endswith (png_filename filename) ''.png''" by (rule png_filename_endswith)
    then have "length (png_filename filename) \<ge> 4" by (simp add: endswith_def)
    then have "png_filename filename \<noteq> []" "png_filename filename \<noteq> ''.''" by auto
    moreover have "CHR ''/'' \<notin> set (png_filename filename)"
      using that by (simp add: png_filename_def)
    ultimately show ?thesis unfolding p by (rule path_str_no_slash)
  qed
  have slash_free: "CHR ''/'' \<notin> set filename \<longrightarrow>
            (endswith filename ''.png'' \<longrightarrow> p = filename) \<and>
            (\<not> endswith filename ''.png'' \<longrightarrow> p = filename @ ''.png'')"
    using flat by (auto simp: png_filename_def)
  from only other slash_free show ?thesis by blast
qed

text \<open>\<^verbatim>\<open>chart.PNG\<close> is written to \<^verbatim>\<open>chart.PNG.png\<close>; \<^verbatim>\<open>chart.png\<close> keeps its name.\<close>

theorem export_suffix_case_sensitive_witness:
  "(\<exists>w'. export_png_high_quality accept_all () ''chart.PNG'' (Some 1200) (Some 800) (Some 1)
           empty_world = (Inr ''chart.PNG.png'', w')) \<and>
   endswith ''chart.PNG'' ''.PNG'' \<and>
   endswith ''chart.PNG.png'' (''.PNG'' @ ''.png'') \<and>
   (\<exists>w'. export_png_high_quality accept_all () ''chart.png'' (Some 1200) (Some 800) (Some 1)
           empty_world = (Inr ''chart.png'', w'))"
proof -
  obtain w1 where up: "export_png_high_quality accept_all () ''chart.PNG'' (Some 1200) (Some 800)
      (Some 1) empty_world = (Inr ''chart.PNG.png'', w1)"
    using export_empty_world [of "()" "''chart.PNG''" 1200 800 1]
    by (auto simp: resolved_upper)
  obtain w2 where lo: "export_png_high_quality accept_all () ''chart.png'' (Some 1200) (Some 800)
      (Some 1) empty_world = (Inr ''chart.png'', w2)"
    using export_empty_world [of "()" "''chart.png''" 1200 800 1]
    by (auto simp: resolved_lower)
  have e: "endswith ''chart.PNG'' ''.PNG''" by (simp add: endswith_def)
  have "length ''.PNG'' = 4 \<and> ''.PNG'' \<noteq> ''.png'' \<and> CHR ''/'' \<notin> set ''.PNG'' \<and>
        endswith ''chart.PNG'' ''.PNG''"
    using e by simp
  with export_suffix_case_sensitive [OF up] have "endswith ''chart.PNG.png'' (''.PNG'' @ ''.png'')"
    by blast
  with up lo e show ?thesis by blast
qed

section \<open>What the engine is asked for\<close>

text \<open>
  Claim C5.  An export that succeeds has sent the engine one more request, with the
  width, the height and the scale it was called with, unmodified, the format
  \<^verbatim>\<open>png\<close> and the file name it returns; the image then found at that path has width
  \<open>\<times>\<close> scale by height \<open>\<times>\<close> scale pixels (the engine's contract).  At 1200 by 800
  that is 1200 by 800 pixels at scale 1 and 2400 by 1600 pixels at scale 2.
\<close>

theorem export_scale_law:
  assumes "export_png_high_quality E fig filename (Some width) (Some height) (Some scale) w
             = (Inr p, w')"
  shows "requests w' = requests w @
           [\<lparr>req_figure = fig, req_file = p, req_width = width, req_height = height,
             req_scale = scale, req_format = ''png'', req_engine = ''kaleido''\<rparr>] \<and>
         files w' (Path p) =
           Some (File \<lparr>img_figure = fig, px_width = of_int width * scale,
                        px_height = of_int height * scale\<rparr>)"
  using export_Inr [OF assms] unfolding option.case by blast

text \<open>The two exports of the claim, 1200 by 800 at scale 1 and at scale 2.\<close>

theorem export_scale_law_witness:
  "\<exists>w1 w2.
     export_png_high_quality accept_all () ''chart'' (Some 1200) (Some 800) (Some 1) empty_world
       = (Inr ''chart.png'', w1) \<and>
     requests w1 =
       [\<lparr>req_figure = (), req_file = ''chart.png'', req_width = 1200, req_height = 800,
         req_scale = 1, req_format = ''png'', req_engine = ''kaleido''\<rparr>] \<and>
     files w1 (Path ''chart.png'') =
       Some (File \<lparr>img_figure = (), px_width = 1200, px_height = 800\<rparr>) \<and>
     export_png_high_quality accept_all () ''chart'' (Some 1200) (Some 800) (Some 2) empty_world
       = (Inr ''chart.png'', w2) \<and>
     requests w2 =
       [\<lparr>req_figure = (), req_file = ''chart.png'', req_width = 1200, req_height = 800,
         req_scale = 2, req_format = ''png'', req_engine = ''kaleido''\<rparr>] \<and>
     files w2 (Path ''chart.png'') =
       Some (File \<lparr>img_figure = (), px_width = 2400, px_height = 1600\<rparr>)"
proof -
  obtain w1 where ok1: "export_png_high_quality accept_all () ''chart'' (Some 1200) (Some 800)
      (Some 1) empty_world = (Inr ''chart.png'', w1)"
    using export_empty_world [of "()" "''chart''" 1200 800 1]
    by (auto simp: resolved_chart)
  obtain w2 where ok2: "export_png_high_quality accept_all () ''chart'' (Some 1200) (Some 800)
      (Some 2) empty_world = (Inr ''chart.png'', w2)"
    using export_empty_world [of "()" "''chart''" 1200 800 2]
    by (auto simp: resolved_chart)
  have "requests (empty_world :: unit world) = []" by (simp add: empty_world_def)
  with export_scale_law [OF ok1] export_scale_law [OF ok2] ok1 ok2 show ?thesis
    by (intro exI [of _ w1] exI [of _ w2]) simp
qed

section \<open>Directories are created, and creating them again is harmless\<close>

text \<open>
  Claim C7.  Let the target be spelled plainly (no \<^verbatim>\<open>..\<close> component, not the root
  \<^verbatim>\<open>//\<close>: the paths the file-system model is of), let the engine accept the request,
  let no regular file stand where the parent directory of the target or a directory
  above it has to be, and let the target itself not be a directory.  Then the export
  succeeds, and afterwards the parent directory and every directory above it exist (the
  file system is the old one with those directories and the image file added); a second
  export to the same file name, from the world the first one left, succeeds too, returns
  the same path and leaves the same file system.  Making a directory that exists already
  (\<^verbatim>\<open>parents=True, exist_ok=True\<close>) raises nothing and changes nothing.  The parent
  directories may all be missing at the start, as in the claim, or partly or wholly
  there.
\<close>

theorem export_creates_directories:
  fixes E :: "'f request \<Rightarrow> bool" and w :: "'f world" and fig :: 'f
    and filename :: string and width height :: int and scale :: rat
  defines "P \<equiv> Path (png_filename filename)"
  defines "img \<equiv> \<lparr>img_figure = fig, px_width = of_int width * scale,
                     px_height = of_int height * scale\<rparr>"
  assumes E: "E \<lparr>req_figure = fig, req_file = path_str P, req_width = width,
                 req_height = height, req_scale = scale, req_format = ''png'',
                 req_engine = ''kaleido''\<rparr>"
    and plain: "plain_path P"
    and nb: "\<not> blocked (files w) (parent P)"
    and nd: "files w P \<noteq> Some Dir"
  shows "\<exists>w1 w2.
     export_png_high_quality E fig filename (Some width) (Some height) (Some scale) w
       = (Inr (path_str P), w1) \<and>
     export_png_high_quality E fig filename (Some width) (Some height) (Some scale) w1
       = (Inr (path_str P), w2) \<and>
     files w1 = (with_dirs (files w) (parent P))(P \<mapsto> File img) \<and>
     is_dir (files w1) (parent P) \<and>
     files w2 = files w1 \<and>
     (\<forall>fs d. is_dir fs d \<longrightarrow> path_mkdir fs d True True = (Inr (), fs :: 'f image filesystem))"
proof -
  let ?req = "\<lparr>req_figure = fig, req_file = path_str P, req_width = width,
                 req_height = height, req_scale = scale, req_format = ''png'',
                 req_engine = ''kaleido''\<rparr>"
  define fs1 where "fs1 = (with_dirs (files w) (parent P))(P \<mapsto> File img)"
  define w1 where "w1 = w\<lparr>requests := requests w @ [?req], files := fs1\<rparr>"
  define w2 where "w2 = w1\<lparr>requests := requests w1 @ [?req], files := fs1\<rparr>"
  have tail: "path_tail P \<noteq> []"
    unfolding P_def by (rule png_path_tail)
  have first: "export_png_high_quality E fig filename (Some width) (Some height) (Some scale) w
       = (Inr (path_str P), w1)"
    unfolding w1_def fs1_def P_def img_def
    using E nb nd unfolding P_def by (rule export_ok)
  have fw1: "files w1 = fs1" by (simp add: w1_def)
  have nb1: "\<not> blocked (files w1) (parent P)"
    unfolding fw1 fs1_def by (rule second_export_state(1) [OF tail])
  have nd1: "files w1 P \<noteq> Some Dir"
    unfolding fw1 fs1_def by (rule second_export_state(2) [OF tail])
  have dir1: "is_dir (files w1) (parent P)"
    unfolding fw1 fs1_def by (rule second_export_state(3) [OF tail])
  have same: "(with_dirs (files w1) (parent P))(P \<mapsto> File img) = fs1"
    unfolding fw1 fs1_def by (rule second_export_state(4) [OF tail])
  have "export_png_high_quality E fig filename (Some width) (Some height) (Some scale) w1
       = (Inr (path_str (Path (png_filename filename))),
          w1\<lparr>requests := requests w1 @
               [\<lparr>req_figure = fig, req_file = path_str (Path (png_filename filename)),
                 req_width = width, req_height = height, req_scale = scale,
                 req_format = ''png'', req_engine = ''kaleido''\<rparr>],
             files := (with_dirs (files w1) (parent (Path (png_filename filename))))
               (Path (png_filename filename) \<mapsto>
                  File \<lparr>img_figure = fig, px_width = of_int width * scale,
                     px_height = of_int height * scale\<rparr>)\<rparr>)"
    using E nb1 nd1 unfolding P_def by (rule export_ok)
  then have second: "export_png_high_quality E fig filename (Some width) (Some height) (Some scale) w1
       = (Inr (path_str P), w2)"
    unfolding w2_def same [symmetric] P_def img_def .
  have fw2: "files w2 = files w1" by (simp add: w2_def w1_def)
  have idem: "\<forall>fs d. is_dir fs d \<longrightarrow> path_mkdir fs d True True = (Inr (), fs :: 'f image filesystem)"
    using path_mkdir_exists by blast
  from first second fw1 dir1 fw2 idem show ?thesis
    unfolding fs1_def by blast
qed

text \<open>
  \<^verbatim>\<open>out/a/b/chart\<close> in a world without any directory: both exports succeed, and the
  three directories are there after the first.
\<close>

theorem export_creates_directories_witness:
  "\<exists>w1 w2.
     export_png_high_quality accept_all () ''out/a/b/chart'' (Some 1200) (Some 800) (Some 2)
       empty_world = (Inr ''out/a/b/chart.png'', w1) \<and>
     export_png_high_quality accept_all () ''out/a/b/chart'' (Some 1200) (Some 800) (Some 2)
       w1 = (Inr ''out/a/b/chart.png'', w2) \<and>
     files w1 (Path ''out'') = Some Dir \<and>
     files w1 (Path ''out/a'') = Some Dir \<and>
     files w1 (Path ''out/a/b'') = Some Dir \<and>
     is_dir (files w1) (Path ''out/a/b'') \<and>
     files w2 = files w1"
proof -
  have "\<not> blocked (files (empty_world :: unit world)) (parent (Path (png_filename ''out/a/b/chart'')))"
    by (simp add: blocked_def empty_world_def)
  moreover have "files (empty_world :: unit world) (Path (png_filename ''out/a/b/chart'')) \<noteq> Some Dir"
    by (simp add: empty_world_def)
  moreover have "plain_path (Path (png_filename ''out/a/b/chart''))"
    by (simp add: resolved_nested Path_nested plain_path_def)
  moreover have "accept_all \<lparr>req_figure = (), req_file = path_str (Path (png_filename ''out/a/b/chart'')),
       req_width = 1200, req_height = 800, req_scale = 2, req_format = ''png'',
       req_engine = ''kaleido''\<rparr>"
    by (simp add: accept_all_def)
  ultimately obtain w1 w2 where
    a: "export_png_high_quality accept_all () ''out/a/b/chart'' (Some 1200) (Some 800) (Some 2)
       empty_world = (Inr (path_str (Path (png_filename ''out/a/b/chart''))), w1)"
    and b: "export_png_high_quality accept_all () ''out/a/b/chart'' (Some 1200) (Some 800) (Some 2)
       w1 = (Inr (path_str (Path (png_filename ''out/a/b/chart''))), w2)"
    and c: "files w1 = (with_dirs (files empty_world) (parent (Path (png_filename ''out/a/b/chart''))))
        (Path (png_filename ''out/a/b/chart'') \<mapsto>
          File \<lparr>img_figure = (), px_width = of_int 1200 * 2, px_height = of_int 800 * 2\<rparr>)"
    and d: "is_dir (files w1) (parent (Path (png_filename ''out/a/b/chart'')))"
    and e: "files w2 = files w1"
    using export_creates_directories [of accept_all "()" "''out/a/b/chart''" 1200 800 2 empty_world]
    by blast
  have par: "parent (Path (png_filename ''out/a/b/chart'')) = Path ''out/a/b''"
    by (simp add: resolved_nested Path_nested parent_def)
  have dirs: "files w1 (Path ''out'') = Some Dir" "files w1 (Path ''out/a'') = Some Dir"
    "files w1 (Path ''out/a/b'') = Some Dir"
    unfolding c par by (simp_all add: resolved_nested Path_nested with_dirs_def)
  from a b d e dirs show ?thesis
    by (simp add: par) (simp add: resolved_nested Path_nested str_nested)
qed

end
